theory Spec2Isabelle
  imports Complex_Main "HOL-Library.Product_Lexorder"
begin

section \<open>Floating-point values\<close>

text \<open>
  The program computes on NumPy \<open>float64\<close> values.  A value is a finite number, one of the
  two infinities, or NaN.  Finite values are kept as exact reals: rounding to the nearest
  representable number is abstracted away, and the sign of zero is not tracked.  What is kept
  is everything that changes the shape of a result: NaN propagation, the infinities, division
  by zero, the logarithm outside its domain, overflow beyond the largest finite \<open>float64\<close>,
  and underflow: a product or quotient of magnitude at most \<open>2^-1075\<close>, half the smallest
  subnormal, rounds to zero.  A sum of two \<open>float64\<close> values does not underflow.
\<close>

datatype fl = Fin real | PInf | NInf | NaN

definition MAXF :: real where
  "MAXF = (2 - 1 / 2 ^ 52) * 2 ^ 1023"

definition MINF :: real where
  "MINF = 1 / 2 ^ 1075"

definition overflow :: "real \<Rightarrow> fl" where
  "overflow r = (if MAXF < r then PInf else if r < - MAXF then NInf else Fin r)"

definition fl_round :: "real \<Rightarrow> fl" where
  "fl_round r = (if \<bar>r\<bar> \<le> MINF then Fin 0 else overflow r)"

fun fl_neg :: "fl \<Rightarrow> fl" where
  "fl_neg (Fin a) = Fin (- a)"
| "fl_neg PInf = NInf"
| "fl_neg NInf = PInf"
| "fl_neg NaN = NaN"

fun fl_add :: "fl \<Rightarrow> fl \<Rightarrow> fl" where
  "fl_add NaN _ = NaN"
| "fl_add _ NaN = NaN"
| "fl_add PInf NInf = NaN"
| "fl_add NInf PInf = NaN"
| "fl_add PInf _ = PInf"
| "fl_add _ PInf = PInf"
| "fl_add NInf _ = NInf"
| "fl_add _ NInf = NInf"
| "fl_add (Fin a) (Fin b) = overflow (a + b)"

definition fl_sub :: "fl \<Rightarrow> fl \<Rightarrow> fl" where
  "fl_sub a b = fl_add a (fl_neg b)"

fun fl_sgn :: "fl \<Rightarrow> int" where
  "fl_sgn (Fin a) = (if 0 < a then 1 else if a < 0 then - 1 else 0)"
| "fl_sgn PInf = 1"
| "fl_sgn NInf = - 1"
| "fl_sgn NaN = 0"

definition fl_inf :: "int \<Rightarrow> fl" where
  "fl_inf s = (if 0 < s then PInf else if s < 0 then NInf else NaN)"

fun fl_mul :: "fl \<Rightarrow> fl \<Rightarrow> fl" where
  "fl_mul NaN _ = NaN"
| "fl_mul _ NaN = NaN"
| "fl_mul (Fin a) (Fin b) = fl_round (a * b)"
| "fl_mul a b = fl_inf (fl_sgn a * fl_sgn b)"

fun fl_div :: "fl \<Rightarrow> fl \<Rightarrow> fl" where
  "fl_div NaN _ = NaN"
| "fl_div _ NaN = NaN"
| "fl_div (Fin a) (Fin b) = (if b = 0 then fl_inf (fl_sgn (Fin a)) else fl_round (a / b))"
| "fl_div (Fin a) _ = Fin 0"
| "fl_div a (Fin b) = fl_inf (fl_sgn a * (if b < 0 then - 1 else 1))"
| "fl_div _ _ = NaN"

fun fl_log :: "fl \<Rightarrow> fl" where
  "fl_log (Fin a) = (if 0 < a then Fin (ln a) else if a = 0 then NInf else NaN)"
| "fl_log PInf = PInf"
| "fl_log NInf = NaN"
| "fl_log NaN = NaN"

text \<open>Comparisons: every comparison with NaN is false.\<close>

fun fl_key :: "fl \<Rightarrow> int \<times> real" where
  "fl_key (Fin a) = (0, a)"
| "fl_key PInf = (1, 0)"
| "fl_key NInf = (- 1, 0)"
| "fl_key NaN = (2, 0)"

definition fl_lt :: "fl \<Rightarrow> fl \<Rightarrow> bool" where
  "fl_lt a b = (a \<noteq> NaN \<and> b \<noteq> NaN \<and> fl_key a < fl_key b)"

definition fl_gt :: "fl \<Rightarrow> fl \<Rightarrow> bool" where
  "fl_gt a b = fl_lt b a"

definition isna :: "fl \<Rightarrow> bool" where
  "isna a = (a = NaN)"

section \<open>Exceptions\<close>

datatype exn = ValueError string | TypeError | IndexError | KeyError | FileNotFoundError string

text \<open>A \<open>try: ... except: ...\<close> statement with a bare \<open>except\<close>: whatever the body
  raises is caught and the handler's result is used.\<close>

definition try_except :: "exn + 'a \<Rightarrow> exn + 'a \<Rightarrow> exn + 'a" where
  "try_except body handler = (case body of Inl e \<Rightarrow> handler | Inr v \<Rightarrow> Inr v)"

section \<open>Series\<close>

text \<open>
  A pandas Series is the list of its cells.  A cell is a number or an object that
  is not a number (a string, say); a missing value is the number NaN.
\<close>

datatype cell = Num fl | Obj string

fun is_Num :: "cell \<Rightarrow> bool" where
  "is_Num (Num _) = True"
| "is_Num (Obj _) = False"

fun num_of :: "cell \<Rightarrow> fl" where
  "num_of (Num a) = a"
| "num_of (Obj _) = NaN"

definition dropna_values :: "fl list \<Rightarrow> fl list" where
  "dropna_values xs = filter (\<lambda>x. \<not> isna x) xs"

text \<open>
  \<open>Series.quantile(q)\<close> with the default linear interpolation, as pandas documents it:
  \<open>q\<close> outside \<open>[0, 1]\<close> raises \<open>ValueError\<close>, a non-numeric series raises \<open>TypeError\<close>,
  missing values are skipped, an empty series gives NaN, and otherwise the result is
  \<open>i + (j - i) * fraction\<close> for the two order statistics \<open>i\<close>, \<open>j\<close> around position
  \<open>(n - 1) * q\<close>.  NumPy, which pandas calls, computes it from the upper neighbour,
  \<open>j - (j - i) * (1 - fraction)\<close>, when the fraction is at least one half.
\<close>

definition lerp :: "fl \<Rightarrow> fl \<Rightarrow> real \<Rightarrow> fl" where
  "lerp a b g =
     (if 1 / 2 \<le> g then fl_sub b (fl_mul (fl_sub b a) (Fin (1 - g)))
      else fl_add a (fl_mul (fl_sub b a) (Fin g)))"

definition quantile :: "cell list \<Rightarrow> fl \<Rightarrow> exn + fl" where
  "quantile series q =
     (case q of
        Fin qr \<Rightarrow>
          if 0 \<le> qr \<and> qr \<le> 1 then
            if \<not> list_all is_Num series then Inl TypeError
            else
              let vals = sort_key fl_key (dropna_values (map num_of series));
                  n = length vals
              in if n = 0 then Inr NaN
                 else
                   let h = real (n - 1) * qr;
                       lo = nat \<lfloor>h\<rfloor>;
                       hi = min (lo + 1) (n - 1)
                   in Inr (lerp (vals ! lo) (vals ! hi) (h - real lo))
          else Inl (ValueError ''percentiles should all be in the interval [0, 1]'')
      | _ \<Rightarrow> Inl (ValueError ''percentiles should all be in the interval [0, 1]''))"

text \<open>\<open>series[series > threshold]\<close>: comparing a non-numeric cell with a number raises.\<close>

definition series_gt_select :: "cell list \<Rightarrow> fl \<Rightarrow> exn + fl list" where
  "series_gt_select series threshold =
     (if \<not> list_all is_Num series then Inl TypeError
      else Inr (filter (\<lambda>x. fl_gt x threshold) (map num_of series)))"

definition fl_sum :: "fl list \<Rightarrow> fl" where
  "fl_sum xs = foldl fl_add (Fin 0) xs"

text \<open>
  The quotient \<open>the_sum / count\<close> of a mean.  The means taken here are over logarithms of
  \<open>float64\<close> ratios, which are zero, infinite or at least \<open>2^-53\<close> in magnitude and all of
  one sign: their sum divided by their number cannot underflow, and only the overflow of
  the quotient is kept.
\<close>

definition fl_div_count :: "fl \<Rightarrow> nat \<Rightarrow> fl" where
  "fl_div_count s n = (case s of Fin a \<Rightarrow> overflow (a / real n) | _ \<Rightarrow> s)"

text \<open>\<open>Series.mean()\<close> skips missing values (\<open>skipna=True\<close> is the default); the mean of
  no values is NaN.\<close>

definition series_mean :: "fl list \<Rightarrow> fl" where
  "series_mean xs =
     (let vals = dropna_values xs
      in if vals = [] then NaN else fl_div_count (fl_sum vals) (length vals))"

section \<open>The Hill tail index\<close>

definition hill_body :: "cell list \<Rightarrow> fl \<Rightarrow> exn + fl" where
  "hill_body series threshold_quantile =
     (case quantile series threshold_quantile of
        Inl e \<Rightarrow> Inl e
      | Inr threshold \<Rightarrow>
          (case series_gt_select series threshold of
             Inl e \<Rightarrow> Inl e
           | Inr tail_data \<Rightarrow>
               if length tail_data < 10 then Inr NaN
               else
                 let log_exceedances = map (\<lambda>x. fl_log (fl_div x threshold)) tail_data;
                     hill_index = fl_div (Fin 1) (series_mean log_exceedances)
                 in Inr hill_index))"

definition hill_tail_index :: "cell list \<Rightarrow> fl \<Rightarrow> exn + fl" where
  "hill_tail_index series threshold_quantile =
     try_except (hill_body series threshold_quantile) (Inr NaN)"


text \<open>
  The estimator as the specification words it: \<open>T\<close> is the exceedance set above the
  threshold \<open>u\<close>, \<open>m\<close> is the arithmetic mean of \<open>ln (x / u)\<close> over all of \<open>T\<close>, and the
  result is \<open>1 / m\<close>.
\<close>

definition exceedances :: "cell list \<Rightarrow> fl \<Rightarrow> fl list" where
  "exceedances series u = filter (\<lambda>x. fl_gt x u) (map num_of series)"

definition log_exceedances :: "fl list \<Rightarrow> fl \<Rightarrow> fl list" where
  "log_exceedances T u = map (\<lambda>x. fl_log (fl_div x u)) T"

definition mean_spec :: "fl list \<Rightarrow> fl" where
  "mean_spec xs = fl_div_count (fl_sum xs) (length xs)"

definition hill_spec :: "fl list \<Rightarrow> fl \<Rightarrow> fl" where
  "hill_spec T u = fl_div (Fin 1) (mean_spec (map (\<lambda>x. fl_log (fl_div x u)) T))"

text \<open>Values that are strictly positive, or not negative: a finite number of that sign or
  plus infinity.\<close>

fun fl_pos :: "fl \<Rightarrow> bool" where
  "fl_pos (Fin a) = (0 < a)"
| "fl_pos PInf = True"
| "fl_pos _ = False"

fun fl_nonneg :: "fl \<Rightarrow> bool" where
  "fl_nonneg (Fin a) = (0 \<le> a)"
| "fl_nonneg PInf = True"
| "fl_nonneg _ = False"

text \<open>A cell that holds a strictly positive finite \<open>float64\<close>.\<close>

fun pos_finite :: "cell \<Rightarrow> bool" where
  "pos_finite (Num (Fin r)) = (0 < r \<and> r \<le> MAXF)"
| "pos_finite _ = False"

text \<open>Concrete series used to run the estimator.\<close>

definition s9 :: "cell list" where
  "s9 = [Num (Fin 1), Num (Fin 1), Num (Fin 2), Num (Fin 2), Num (Fin 2), Num (Fin 2),
     Num (Fin 2), Num (Fin 2), Num (Fin 2), Num (Fin 2), Num (Fin 2)]"

definition s10 :: "cell list" where
  "s10 = [Num (Fin 1), Num (Fin 1), Num (Fin 2), Num (Fin 2), Num (Fin 2), Num (Fin 2),
     Num (Fin 2), Num (Fin 2), Num (Fin 2), Num (Fin 2), Num (Fin 2), Num (Fin 2)]"

definition s_neg :: "cell list" where
  "s_neg = [Num (Fin (- 2)), Num (Fin (- 2)),
     Num (Fin (- 1)), Num (Fin (- 1)), Num (Fin (- 1)), Num (Fin (- 1)), Num (Fin (- 1)),
     Num (Fin 1), Num (Fin 1), Num (Fin 1), Num (Fin 1), Num (Fin 1)]"

definition s_over :: "cell list" where
  "s_over = [Num (Fin (1 / 2 ^ 1000)), Num (Fin (1 / 2 ^ 1000)),
     Num (Fin (2 ^ 1000)), Num (Fin (2 ^ 1000)), Num (Fin (2 ^ 1000)), Num (Fin (2 ^ 1000)),
     Num (Fin (2 ^ 1000)), Num (Fin (2 ^ 1000)), Num (Fin (2 ^ 1000)), Num (Fin (2 ^ 1000)),
     Num (Fin (2 ^ 1000)), Num (Fin (2 ^ 1000))]"

section \<open>Strings\<close>

text \<open>\<open>str.lower()\<close> on ASCII text and the substring test \<open>p in s\<close>.\<close>

definition char_lower :: "char \<Rightarrow> char" where
  "char_lower c =
     (case map_of (zip ''ABCDEFGHIJKLMNOPQRSTUVWXYZ'' ''abcdefghijklmnopqrstuvwxyz'') c of
        Some l \<Rightarrow> l | None \<Rightarrow> c)"

definition str_lower :: "string \<Rightarrow> string" where
  "str_lower s = map char_lower s"

fun starts_with :: "string \<Rightarrow> string \<Rightarrow> bool" where
  "starts_with [] s = True"
| "starts_with (p # ps) [] = False"
| "starts_with (p # ps) (c # cs) = (p = c \<and> starts_with ps cs)"

fun str_contains :: "string \<Rightarrow> string \<Rightarrow> bool" where
  "str_contains p [] = (p = [])"
| "str_contains p (c # cs) = (starts_with p (c # cs) \<or> str_contains p cs)"

section \<open>Data frames\<close>

text \<open>
  A DataFrame is its column names and its rows in order; every row carries its index label
  and one cell per column.  \<open>index_name\<close> is the name of the column that was made the index,
  or \<open>None\<close> for the ordinal index that \<open>read_csv\<close> creates.
\<close>

record ('i, 'c) frame =
  index_name :: "string option"
  columns :: "string list"
  rows :: "('i \<times> 'c list) list"

definition wf_frame :: "('i, 'c) frame \<Rightarrow> bool" where
  "wf_frame df = list_all (\<lambda>r. length (snd r) = length (columns df)) (rows df)"

definition get_col :: "('i, 'c) frame \<Rightarrow> nat \<Rightarrow> 'c list" where
  "get_col df j = map (\<lambda>r. snd r ! j) (rows df)"

text \<open>\<open>df.items()\<close>: the columns in order, each with its name.\<close>

definition frame_items :: "('i, 'c) frame \<Rightarrow> (string \<times> 'c list) list" where
  "frame_items df = map (\<lambda>j. (columns df ! j, get_col df j)) [0..<length (columns df)]"

text \<open>\<open>df.shift(1)\<close>: every row receives the values of the row before it, and the first
  row is filled with NaN.\<close>

fun shift_rows :: "fl list \<Rightarrow> ('i \<times> fl list) list \<Rightarrow> ('i \<times> fl list) list" where
  "shift_rows prev [] = []"
| "shift_rows prev ((i, vals) # rest) = (i, prev) # shift_rows vals rest"

definition shift1 :: "('i, fl) frame \<Rightarrow> ('i, fl) frame" where
  "shift1 df = df\<lparr>rows := shift_rows (replicate (length (columns df)) NaN) (rows df)\<rparr>"

text \<open>Arithmetic on frames is cell by cell, on frames with the same index and columns.\<close>

definition frame_map2 ::
  "(fl \<Rightarrow> fl \<Rightarrow> fl) \<Rightarrow> ('i, fl) frame \<Rightarrow> ('i, fl) frame \<Rightarrow> ('i, fl) frame" where
  "frame_map2 f a b = a\<lparr>rows := map2 (\<lambda>ra rb. (fst ra, map2 f (snd ra) (snd rb))) (rows a) (rows b)\<rparr>"

definition frame_map :: "(fl \<Rightarrow> fl) \<Rightarrow> ('i, fl) frame \<Rightarrow> ('i, fl) frame" where
  "frame_map f a = a\<lparr>rows := map (\<lambda>r. (fst r, map f (snd r))) (rows a)\<rparr>"

text \<open>\<open>df.dropna()\<close>: rows with a missing value in any column are removed.  Infinite
  values are not missing.\<close>

definition frame_dropna :: "('c \<Rightarrow> bool) \<Rightarrow> ('i, 'c) frame \<Rightarrow> ('i, 'c) frame" where
  "frame_dropna na df = df\<lparr>rows := filter (\<lambda>r. \<not> list_ex na (snd r)) (rows df)\<rparr>"

section \<open>Returns\<close>

definition compute_returns :: "('i, fl) frame \<Rightarrow> string \<Rightarrow> ('i, fl) frame" where
  "compute_returns prices return_type =
     (let returns =
        (if str_lower return_type = ''log''
         then frame_map fl_log (frame_map2 fl_div prices (shift1 prices))
         else frame_map2 fl_div (frame_map2 fl_sub prices (shift1 prices)) (shift1 prices))
      in frame_dropna isna returns)"

text \<open>The specification's log returns: for each row after the first and each series,
  \<open>ln (price[t] / price[t-1])\<close>.\<close>

definition spec_log_returns :: "('i \<times> fl list) list \<Rightarrow> ('i \<times> fl list) list" where
  "spec_log_returns rs =
     map2 (\<lambda>cur prev. (fst cur, map2 (\<lambda>p p0. fl_log (fl_div p p0)) (snd cur) (snd prev)))
       (tl rs) rs"


text \<open>The specification's simple returns: \<open>(price[t] - price[t-1]) / price[t-1]\<close>.\<close>

definition spec_simple_returns :: "('i \<times> fl list) list \<Rightarrow> ('i \<times> fl list) list" where
  "spec_simple_returns rs =
     map2 (\<lambda>cur prev. (fst cur, map2 (\<lambda>p p0. fl_div (fl_sub p p0) p0) (snd cur) (snd prev)))
       (tl rs) rs"





definition prices_zero :: "(nat, fl) frame" where
  "prices_zero = \<lparr>index_name = Some ''Date'', columns = [''A''],
     rows = [(0, [Fin 1]), (1, [Fin 0]), (2, [Fin 1])]\<rparr>"


section \<open>Configuration\<close>

record EDAConfig =
  input_csv :: string
  date_column :: string
  parse_dates :: bool
  dropna :: bool
  price_columns_include :: "string list"
  price_columns_exclude :: "string list"
  resample :: "string option"
  return_type :: string
  plots :: "string \<rightharpoonup> bool"
  tests :: "string \<rightharpoonup> fl"
  tails :: "string \<rightharpoonup> fl"
  output_dirs :: "string \<rightharpoonup> string"
  seed :: int

section \<open>Stationarity tests\<close>

text \<open>
  \<open>adfuller\<close> and \<open>kpss\<close> are routines of statsmodels.  They are parameters of the model:
  a routine, called with the fixed arguments of the source (\<open>regression='ct'\<close>, and
  \<open>autolag='AIC'\<close> for \<open>adfuller\<close>), either raises or returns its result tuple, taken here
  as the list of its numeric entries.  The source keeps the first three entries (\<open>[:3]\<close>) and unpacks them into
  three names, which raises \<open>ValueError\<close> when there are fewer.
\<close>

record stationarity_row =
  Series :: string
  ADF_Statistic :: fl
  ADF_p_value :: fl
  ADF_Result :: string
  KPSS_Statistic :: fl
  KPSS_p_value :: fl
  KPSS_Result :: string

definition adf_test :: "(fl list \<Rightarrow> exn + fl list) \<Rightarrow> fl list \<Rightarrow> fl \<Rightarrow> exn + fl \<times> fl \<times> string" where
  "adf_test adfuller series alpha =
     try_except
       (case adfuller series of
          Inl e \<Rightarrow> Inl e
        | Inr res \<Rightarrow>
            (case take 3 res of
               [adf_stat, adf_pval, adf_crit] \<Rightarrow>
                 Inr (adf_stat, adf_pval,
                      if fl_lt adf_pval alpha then ''Stationary'' else ''Non-stationary'')
             | _ \<Rightarrow> Inl (ValueError ''not enough values to unpack'')))
       (Inr (NaN, NaN, ''Error''))"

definition kpss_test :: "(fl list \<Rightarrow> exn + fl list) \<Rightarrow> fl list \<Rightarrow> fl \<Rightarrow> exn + fl \<times> fl \<times> string" where
  "kpss_test kpss series alpha =
     try_except
       (case kpss series of
          Inl e \<Rightarrow> Inl e
        | Inr res \<Rightarrow>
            (case take 3 res of
               [kpss_stat, kpss_pval, kpss_crit] \<Rightarrow>
                 Inr (kpss_stat, kpss_pval,
                      if fl_gt kpss_pval alpha then ''Stationary'' else ''Non-stationary'')
             | _ \<Rightarrow> Inl (ValueError ''not enough values to unpack'')))
       (Inr (NaN, NaN, ''Error''))"

text \<open>The body of the loop over the columns, and the loop that appends one row per column.\<close>

definition stationarity_body ::
  "(fl list \<Rightarrow> exn + fl list) \<Rightarrow> (fl list \<Rightarrow> exn + fl list) \<Rightarrow> fl \<Rightarrow> string \<times> fl list
     \<Rightarrow> exn + stationarity_row" where
  "stationarity_body adfuller kpss alpha item =
     (let col = fst item; series = dropna_values (snd item)
      in case adf_test adfuller series alpha of
           Inl e \<Rightarrow> Inl e
         | Inr (adf_stat, adf_pval, adf_result) \<Rightarrow>
             (case kpss_test kpss series alpha of
                Inl e \<Rightarrow> Inl e
              | Inr (kpss_stat, kpss_pval, kpss_result) \<Rightarrow>
                  Inr \<lparr>Series = col, ADF_Statistic = adf_stat, ADF_p_value = adf_pval,
                       ADF_Result = adf_result, KPSS_Statistic = kpss_stat,
                       KPSS_p_value = kpss_pval, KPSS_Result = kpss_result\<rparr>))"

fun stationarity_loop ::
  "(fl list \<Rightarrow> exn + fl list) \<Rightarrow> (fl list \<Rightarrow> exn + fl list) \<Rightarrow> fl \<Rightarrow> (string \<times> fl list) list
     \<Rightarrow> stationarity_row list \<Rightarrow> exn + stationarity_row list" where
  "stationarity_loop adfuller kpss alpha [] results = Inr results"
| "stationarity_loop adfuller kpss alpha (item # rest) results =
     (case stationarity_body adfuller kpss alpha item of
        Inl e \<Rightarrow> Inl e
      | Inr row \<Rightarrow> stationarity_loop adfuller kpss alpha rest (results @ [row]))"

definition stationarity_tests ::
  "(fl list \<Rightarrow> exn + fl list) \<Rightarrow> (fl list \<Rightarrow> exn + fl list) \<Rightarrow> ('i, fl) frame \<Rightarrow> fl
     \<Rightarrow> exn + stationarity_row list" where
  "stationarity_tests adfuller kpss data alpha =
     stationarity_loop adfuller kpss alpha (frame_items data) []"

text \<open>What the table must hold for one test, as the specification words it: the statistic,
  the p-value and the verdict, or NaN, NaN and \<open>Error\<close> when the test failed.\<close>

definition spec_adf_cells :: "exn + fl list \<Rightarrow> fl \<Rightarrow> fl \<times> fl \<times> string" where
  "spec_adf_cells outcome alpha =
     (case outcome of
        Inr (stat # pval # _ # _) \<Rightarrow>
          (stat, pval, if fl_lt pval alpha then ''Stationary'' else ''Non-stationary'')
      | _ \<Rightarrow> (NaN, NaN, ''Error''))"

definition spec_kpss_cells :: "exn + fl list \<Rightarrow> fl \<Rightarrow> fl \<times> fl \<times> string" where
  "spec_kpss_cells outcome alpha =
     (case outcome of
        Inr (stat # pval # _ # _) \<Rightarrow>
          (stat, pval, if fl_gt pval alpha then ''Stationary'' else ''Non-stationary'')
      | _ \<Rightarrow> (NaN, NaN, ''Error''))"

definition spec_stationarity_row ::
  "(fl list \<Rightarrow> exn + fl list) \<Rightarrow> (fl list \<Rightarrow> exn + fl list) \<Rightarrow> fl \<Rightarrow> string \<times> fl list
     \<Rightarrow> stationarity_row" where
  "spec_stationarity_row adfuller kpss alpha item =
     (let series = dropna_values (snd item);
          a = spec_adf_cells (adfuller series) alpha;
          k = spec_kpss_cells (kpss series) alpha
      in \<lparr>Series = fst item, ADF_Statistic = fst a, ADF_p_value = fst (snd a),
           ADF_Result = snd (snd a), KPSS_Statistic = fst k, KPSS_p_value = fst (snd k),
           KPSS_Result = snd (snd k)\<rparr>)"

section \<open>Stylized facts\<close>

text \<open>
  \<open>acorr_ljungbox\<close> and \<open>het_arch\<close> are routines of statsmodels and \<open>Series.kurtosis\<close> one of
  pandas; they are parameters as well.  \<open>acorr_ljungbox\<close> returns a tuple of arrays and
  \<open>het_arch\<close> a tuple of numbers; the source unpacks either into exactly two names.
\<close>

record stylized_row =
  Series :: string
  Ljung_Box_Stat :: fl
  Ljung_Box_p_value :: fl
  ARCH_LM_Stat :: fl
  ARCH_LM_p_value :: fl
  Hill_Tail_Index :: fl
  Excess_Kurtosis :: fl

definition lb_test :: "(fl list \<Rightarrow> fl \<Rightarrow> exn + fl list list) \<Rightarrow> EDAConfig \<Rightarrow> fl list \<Rightarrow> exn + fl \<times> fl" where
  "lb_test acorr_ljungbox config series =
     try_except
       (case tests config ''lb_lags'' of
          None \<Rightarrow> Inl KeyError
        | Some lags \<Rightarrow>
            (case acorr_ljungbox series lags of
               Inl e \<Rightarrow> Inl e
             | Inr res \<Rightarrow>
                 (case res of
                    [lb_stat, lb_pval] \<Rightarrow>
                      if lb_stat = [] \<or> lb_pval = [] then Inl IndexError
                      else Inr (last lb_stat, last lb_pval)
                  | _ \<Rightarrow> Inl (ValueError ''wrong number of values to unpack''))))
       (Inr (NaN, NaN))"

definition arch_test :: "(fl list \<Rightarrow> fl \<Rightarrow> exn + fl list) \<Rightarrow> EDAConfig \<Rightarrow> fl list \<Rightarrow> exn + fl \<times> fl" where
  "arch_test het_arch config series =
     try_except
       (case tests config ''arch_lm_lags'' of
          None \<Rightarrow> Inl KeyError
        | Some nlags \<Rightarrow>
            (case het_arch series nlags of
               Inl e \<Rightarrow> Inl e
             | Inr res \<Rightarrow>
                 (case res of
                    [arch_stat, arch_pval] \<Rightarrow> Inr (arch_stat, arch_pval)
                  | _ \<Rightarrow> Inl (ValueError ''wrong number of values to unpack''))))
       (Inr (NaN, NaN))"

definition stylized_body ::
  "(fl list \<Rightarrow> fl \<Rightarrow> exn + fl list list) \<Rightarrow> (fl list \<Rightarrow> fl \<Rightarrow> exn + fl list) \<Rightarrow> (fl list \<Rightarrow> fl)
     \<Rightarrow> EDAConfig \<Rightarrow> string \<times> fl list \<Rightarrow> exn + stylized_row" where
  "stylized_body acorr_ljungbox het_arch kurtosis config item =
     (let col = fst item; series = dropna_values (snd item)
      in case lb_test acorr_ljungbox config series of
           Inl e \<Rightarrow> Inl e
         | Inr lb_result \<Rightarrow>
             (case arch_test het_arch config series of
                Inl e \<Rightarrow> Inl e
              | Inr arch_result \<Rightarrow>
                  (case tails config ''hill_threshold_quantile'' of
                     None \<Rightarrow> Inl KeyError
                   | Some q \<Rightarrow>
                       (case hill_tail_index (map Num series) q of
                          Inl e \<Rightarrow> Inl e
                        | Inr hill_idx \<Rightarrow>
                            Inr \<lparr>Series = col, Ljung_Box_Stat = fst lb_result,
                                 Ljung_Box_p_value = snd lb_result,
                                 ARCH_LM_Stat = fst arch_result,
                                 ARCH_LM_p_value = snd arch_result,
                                 Hill_Tail_Index = hill_idx,
                                 Excess_Kurtosis = kurtosis series\<rparr>))))"

fun stylized_loop ::
  "(fl list \<Rightarrow> fl \<Rightarrow> exn + fl list list) \<Rightarrow> (fl list \<Rightarrow> fl \<Rightarrow> exn + fl list) \<Rightarrow> (fl list \<Rightarrow> fl)
     \<Rightarrow> EDAConfig \<Rightarrow> (string \<times> fl list) list \<Rightarrow> stylized_row list \<Rightarrow> exn + stylized_row list" where
  "stylized_loop acorr_ljungbox het_arch kurtosis config [] results = Inr results"
| "stylized_loop acorr_ljungbox het_arch kurtosis config (item # rest) results =
     (case stylized_body acorr_ljungbox het_arch kurtosis config item of
        Inl e \<Rightarrow> Inl e
      | Inr row \<Rightarrow> stylized_loop acorr_ljungbox het_arch kurtosis config rest (results @ [row]))"

definition stylized_facts ::
  "(fl list \<Rightarrow> fl \<Rightarrow> exn + fl list list) \<Rightarrow> (fl list \<Rightarrow> fl \<Rightarrow> exn + fl list) \<Rightarrow> (fl list \<Rightarrow> fl)
     \<Rightarrow> ('i, fl) frame \<Rightarrow> EDAConfig \<Rightarrow> exn + stylized_row list" where
  "stylized_facts acorr_ljungbox het_arch kurtosis returns config =
     stylized_loop acorr_ljungbox het_arch kurtosis config (frame_items returns) []"


text \<open>The cells of a stylized-facts row as the specification words them: a failed test
  leaves NaN in its two fields.\<close>

definition spec_lb_cells :: "exn + fl list list \<Rightarrow> fl \<times> fl" where
  "spec_lb_cells outcome =
     (case outcome of
        Inr [stat, pval] \<Rightarrow> if stat = [] \<or> pval = [] then (NaN, NaN) else (last stat, last pval)
      | _ \<Rightarrow> (NaN, NaN))"

definition spec_arch_cells :: "exn + fl list \<Rightarrow> fl \<times> fl" where
  "spec_arch_cells outcome =
     (case outcome of Inr [stat, pval] \<Rightarrow> (stat, pval) | _ \<Rightarrow> (NaN, NaN))"

definition spec_stylized_row ::
  "(fl list \<Rightarrow> fl \<Rightarrow> exn + fl list list) \<Rightarrow> (fl list \<Rightarrow> fl \<Rightarrow> exn + fl list) \<Rightarrow> (fl list \<Rightarrow> fl)
     \<Rightarrow> EDAConfig \<Rightarrow> fl \<Rightarrow> string \<times> fl list \<Rightarrow> stylized_row" where
  "spec_stylized_row acorr_ljungbox het_arch kurtosis config q item =
     (let series = dropna_values (snd item);
          lb = spec_lb_cells (case tests config ''lb_lags'' of
                                None \<Rightarrow> Inl KeyError | Some lags \<Rightarrow> acorr_ljungbox series lags);
          arch = spec_arch_cells (case tests config ''arch_lm_lags'' of
                                None \<Rightarrow> Inl KeyError | Some nlags \<Rightarrow> het_arch series nlags)
      in \<lparr>Series = fst item, Ljung_Box_Stat = fst lb, Ljung_Box_p_value = snd lb,
           ARCH_LM_Stat = fst arch, ARCH_LM_p_value = snd arch,
           Hill_Tail_Index = (case hill_body (map Num series) q of Inl e \<Rightarrow> NaN | Inr v \<Rightarrow> v),
           Excess_Kurtosis = kurtosis series\<rparr>)"

text \<open>A run on two series, the first of them constant: test routines that refuse a constant
  series and accept any other.\<close>

definition is_constant :: "fl list \<Rightarrow> bool" where
  "is_constant xs = (case xs of [] \<Rightarrow> True | x # rest \<Rightarrow> list_all (\<lambda>y. y = x) rest)"

definition demo_adfuller :: "fl list \<Rightarrow> exn + fl list" where
  "demo_adfuller xs =
     (if is_constant xs then Inl (ValueError ''Invalid input, x is constant'')
      else Inr [Fin (- 4), Fin (1 / 100), Fin 0, Fin 3])"

definition demo_kpss :: "fl list \<Rightarrow> exn + fl list" where
  "demo_kpss xs =
     (if is_constant xs then Inl (ValueError ''Invalid input, x is constant'')
      else Inr [Fin (1 / 20), Fin (1 / 10), Fin 1, Fin 0])"

definition demo_acorr_ljungbox :: "fl list \<Rightarrow> fl \<Rightarrow> exn + fl list list" where
  "demo_acorr_ljungbox xs lags =
     (if is_constant xs then Inl (ValueError ''constant series'')
      else Inr [[Fin 1, Fin 2], [Fin (1 / 2), Fin (1 / 4)]])"

definition demo_het_arch :: "fl list \<Rightarrow> fl \<Rightarrow> exn + fl list" where
  "demo_het_arch xs nlags =
     (if is_constant xs then Inl (ValueError ''constant series'') else Inr [Fin 3, Fin (1 / 5)])"

definition demo_kurtosis :: "fl list \<Rightarrow> fl" where
  "demo_kurtosis xs = (if length xs < 4 then NaN else Fin 0)"

definition demo_config :: EDAConfig where
  "demo_config = \<lparr>input_csv = ''data/prices.csv'', date_column = ''Date'', parse_dates = True,
     dropna = True, price_columns_include = [], price_columns_exclude = [], resample = None,
     return_type = ''log'', plots = Map.empty,
     tests = [''adf_alpha'' \<mapsto> Fin (5 / 100), ''lb_lags'' \<mapsto> Fin 20, ''arch_lm_lags'' \<mapsto> Fin 12],
     tails = [''hill_threshold_quantile'' \<mapsto> Fin (95 / 100)],
     output_dirs = [''artifacts'' \<mapsto> ''artifacts/eda'', ''reports'' \<mapsto> ''reports/eda''],
     seed = 123\<rparr>"

definition demo_returns :: "(nat, fl) frame" where
  "demo_returns = \<lparr>index_name = Some ''Date'', columns = [''FLAT'', ''B''],
     rows = [(1, [Fin 0, Fin 1]), (2, [Fin 0, Fin (- 1)]), (3, [Fin 0, Fin 2])]\<rparr>"

section \<open>Loading the price panel\<close>

text \<open>
  \<open>load_data\<close> reads a CSV file, resolves the index, selects the price columns, drops
  rows with missing values and resamples.  The file system (\<open>os.path.exists\<close> and
  \<open>pd.read_csv\<close>), \<open>pd.to_datetime\<close> and \<open>df.resample(rule).last()\<close> are parameters.
  Console output is kept as the list of messages printed on a run that returns.
\<close>

datatype msg = LoadingData string | CouldNotParseDates | FoundPriceColumns "string list"
  | ShapeAfterDropna nat nat | Resampled string nat nat

fun cell_isna :: "cell \<Rightarrow> bool" where
  "cell_isna (Num a) = isna a"
| "cell_isna (Obj _) = False"

fun index_of :: "'a \<Rightarrow> 'a list \<Rightarrow> nat" where
  "index_of x [] = 0"
| "index_of x (y # ys) = (if x = y then 0 else Suc (index_of x ys))"

definition drop_nth :: "nat \<Rightarrow> 'a list \<Rightarrow> 'a list" where
  "drop_nth j xs = take j xs @ drop (Suc j) xs"

definition col_values :: "('i, 'c) frame \<Rightarrow> string \<Rightarrow> 'c list" where
  "col_values df col = get_col df (index_of col (columns df))"

text \<open>\<open>df[col] = values; df.set_index(col, inplace=True)\<close>.\<close>

definition set_index :: "(cell, cell) frame \<Rightarrow> string \<Rightarrow> cell list \<Rightarrow> (cell, cell) frame" where
  "set_index df col values =
     (let j = index_of col (columns df)
      in \<lparr>index_name = Some col, columns = drop_nth j (columns df),
          rows = map2 (\<lambda>r d. (d, drop_nth j (snd r))) (rows df) values\<rparr>)"

definition set_datetime_index ::
  "(cell list \<Rightarrow> exn + cell list) \<Rightarrow> (cell, cell) frame \<Rightarrow> string \<Rightarrow> exn + (cell, cell) frame" where
  "set_datetime_index to_datetime df col =
     (case to_datetime (col_values df col) of
        Inl e \<Rightarrow> Inl e
      | Inr dates \<Rightarrow> Inr (set_index df col dates))"

definition date_like_columns :: "(cell, cell) frame \<Rightarrow> string list" where
  "date_like_columns df =
     filter (\<lambda>col. str_contains ''date'' (str_lower col) \<or> str_contains ''time'' (str_lower col))
       (columns df)"

definition handle_date_column ::
  "EDAConfig \<Rightarrow> (cell list \<Rightarrow> exn + cell list) \<Rightarrow> (cell, cell) frame
     \<Rightarrow> exn + (cell, cell) frame \<times> msg list" where
  "handle_date_column config to_datetime df =
     (if date_column config \<noteq> [] \<and> date_column config \<in> set (columns df) then
        (case set_datetime_index to_datetime df (date_column config) of
           Inl e \<Rightarrow> Inl e | Inr df' \<Rightarrow> Inr (df', []))
      else if parse_dates config then
        (let date_cols = date_like_columns df
         in if date_cols \<noteq> [] then
              (case set_datetime_index to_datetime df (hd date_cols) of
                 Inl e \<Rightarrow> Inl e | Inr df' \<Rightarrow> Inr (df', []))
            else
              (case columns df of
                 [] \<Rightarrow> Inl IndexError
               | first_col # _ \<Rightarrow>
                   (case set_datetime_index to_datetime df first_col of
                      Inl e \<Rightarrow> Inr (df, [CouldNotParseDates])
                    | Inr df' \<Rightarrow> Inr (df', []))))
      else Inr (df, []))"

text \<open>The precedence as the specification words it: the declared column, then the first
  column with a date-like name, then, when \<open>parse_dates\<close> is set, the first column, and
  otherwise the ordinal index with a warning.\<close>

definition spec_resolve_index ::
  "EDAConfig \<Rightarrow> (cell list \<Rightarrow> exn + cell list) \<Rightarrow> (cell, cell) frame
     \<Rightarrow> exn + (cell, cell) frame \<times> msg list" where
  "spec_resolve_index config to_datetime df =
     (if date_column config \<noteq> [] \<and> date_column config \<in> set (columns df) then
        (case set_datetime_index to_datetime df (date_column config) of
           Inl e \<Rightarrow> Inl e | Inr df' \<Rightarrow> Inr (df', []))
      else if date_like_columns df \<noteq> [] then
        (case set_datetime_index to_datetime df (hd (date_like_columns df)) of
           Inl e \<Rightarrow> Inl e | Inr df' \<Rightarrow> Inr (df', []))
      else if parse_dates config then
        (case columns df of
           [] \<Rightarrow> Inl IndexError
         | first_col # _ \<Rightarrow>
             (case set_datetime_index to_datetime df first_col of
                Inl e \<Rightarrow> Inr (df, [CouldNotParseDates])
              | Inr df' \<Rightarrow> Inr (df', [])))
      else Inr (df, [CouldNotParseDates]))"

definition is_numeric_dtype :: "cell list \<Rightarrow> bool" where
  "is_numeric_dtype values = (values \<noteq> [] \<and> list_all is_Num values)"

definition exclude_patterns :: "string list" where
  "exclude_patterns = [''date'', ''time'', ''index'', ''id'']"

definition identify_price_columns :: "EDAConfig \<Rightarrow> (cell, cell) frame \<Rightarrow> string list" where
  "identify_price_columns config df =
     (let price_cols =
        (if price_columns_include config \<noteq> [] then price_columns_include config
         else filter (\<lambda>col. \<not> list_ex (\<lambda>pattern. str_contains pattern (str_lower col)) exclude_patterns
                          \<and> is_numeric_dtype (col_values df col)) (columns df))
      in filter (\<lambda>col. col \<notin> set (price_columns_exclude config)) price_cols)"

text \<open>\<open>df[price_cols]\<close> raises \<open>KeyError\<close> for a name that is not a column.\<close>

definition select_columns :: "(cell, cell) frame \<Rightarrow> string list \<Rightarrow> exn + (cell, cell) frame" where
  "select_columns df cols =
     (if \<not> list_all (\<lambda>c. c \<in> set (columns df)) cols then Inl KeyError
      else Inr (df\<lparr>columns := cols,
                   rows := map (\<lambda>r. (fst r, map (\<lambda>c. snd r ! index_of c (columns df)) cols)) (rows df)\<rparr>))"

definition frame_empty :: "('i, 'c) frame \<Rightarrow> bool" where
  "frame_empty df = (rows df = [] \<or> columns df = [])"

definition load_data ::
  "EDAConfig \<Rightarrow> (string \<rightharpoonup> exn + (cell, cell) frame) \<Rightarrow> (cell list \<Rightarrow> exn + cell list)
     \<Rightarrow> (string \<Rightarrow> (cell, cell) frame \<Rightarrow> exn + (cell, cell) frame)
     \<Rightarrow> exn + (cell, cell) frame \<times> msg list" where
  "load_data config files to_datetime resample_last =
     (case files (input_csv config) of
        None \<Rightarrow> Inl (FileNotFoundError ''Data file not found'')
      | Some (Inl e) \<Rightarrow> Inl (ValueError ''Failed to load data'')
      | Some (Inr df0) \<Rightarrow>
     (case handle_date_column config to_datetime df0 of
        Inl e \<Rightarrow> Inl e
      | Inr (df1, out1) \<Rightarrow>
     (let price_cols = identify_price_columns config df1
      in if price_cols = [] then Inl (ValueError ''No price columns found!'')
         else
     (case select_columns df1 price_cols of
        Inl e \<Rightarrow> Inl e
      | Inr df2 \<Rightarrow>
          if frame_empty df2 then Inl (ValueError ''No data found after selecting price columns'')
          else
     (case (if dropna config then
              (let df3 = frame_dropna cell_isna df2
               in if frame_empty df3
                  then Inl (ValueError ''No data remaining after dropping NA values'')
                  else Inr (df3, [ShapeAfterDropna (length (rows df3)) (length (columns df3))]))
            else Inr (df2, [])) of
        Inl e \<Rightarrow> Inl e
      | Inr (df3, out3) \<Rightarrow>
     (case (case resample config of
              None \<Rightarrow> Inr (df3, [])
            | Some rule \<Rightarrow>
                if rule = [] then Inr (df3, [])
                else
                  (case resample_last rule df3 of
                     Inl e \<Rightarrow> Inl e
                   | Inr r \<Rightarrow>
                       (let df4 = frame_dropna cell_isna r
                        in Inr (df4, [Resampled rule (length (rows df4)) (length (columns df4))])))) of
        Inl e \<Rightarrow> Inl e
      | Inr (df4, out4) \<Rightarrow>
          Inr (df4, [LoadingData (input_csv config)] @ out1 @ [FoundPriceColumns price_cols]
                     @ out3 @ out4)))))))"

text \<open>Concrete runs of the loader.\<close>

definition to_datetime_ok :: "cell list \<Rightarrow> exn + cell list" where
  "to_datetime_ok values = Inr values"

definition to_datetime_fail :: "cell list \<Rightarrow> exn + cell list" where
  "to_datetime_fail values = Inl (ValueError ''Unknown datetime string format'')"

definition resample_same :: "string \<Rightarrow> (cell, cell) frame \<Rightarrow> exn + (cell, cell) frame" where
  "resample_same rule df = Inr df"

definition raw_dated :: "(cell, cell) frame" where
  "raw_dated = \<lparr>index_name = None, columns = [''Date'', ''A''],
     rows = [(Num (Fin 0), [Obj ''2024-01-01'', Num (Fin 1)]),
             (Num (Fin 1), [Obj ''2024-01-02'', Num (Fin 2)])]\<rparr>"

definition raw_plain :: "(cell, cell) frame" where
  "raw_plain = \<lparr>index_name = None, columns = [''day'', ''A''],
     rows = [(Num (Fin 0), [Obj ''first'', Num (Fin 1)]),
             (Num (Fin 1), [Obj ''second'', Num (Fin 2)])]\<rparr>"

definition raw_missing :: "(cell, cell) frame" where
  "raw_missing = \<lparr>index_name = None, columns = [''Date'', ''A''],
     rows = [(Num (Fin 0), [Obj ''2024-01-01'', Num NaN]),
             (Num (Fin 1), [Obj ''2024-01-02'', Num NaN])]\<rparr>"

definition config_undated :: EDAConfig where
  "config_undated = demo_config\<lparr>date_column := [], parse_dates := False\<rparr>"

definition config_resample :: EDAConfig where
  "config_resample = demo_config\<lparr>dropna := False, price_columns_include := [''A''],
     resample := Some ''D''\<rparr>"

section \<open>Arithmetic lemmas\<close>

lemma MAXF_ge: "1000 \<le> MAXF"
  by (simp add: MAXF_def)

lemma MAXF_pos: "0 < MAXF"
  using MAXF_ge by linarith

lemma overflow_in_range: "- MAXF \<le> r \<Longrightarrow> r \<le> MAXF \<Longrightarrow> overflow r = Fin r"
  by (simp add: overflow_def)

lemma overflow_small: "\<bar>r\<bar> \<le> 1000 \<Longrightarrow> overflow r = Fin r"
  using MAXF_ge by (intro overflow_in_range) linarith+

lemma overflow_pos: "0 < r \<Longrightarrow> fl_pos (overflow r)"
  using MAXF_pos by (simp add: overflow_def)

lemma overflow_Fin: "overflow r = Fin m \<Longrightarrow> m = r \<and> - MAXF \<le> r \<and> r \<le> MAXF"
  by (simp add: overflow_def split: if_splits)

lemma MINF_pos: "0 < MINF"
  by (simp add: MINF_def)

lemma MINF_le: "MINF < 1 / 1000"
  by (simp add: MINF_def)

lemma MINF_MAXF: "MINF * MAXF < 1"
  by (simp add: MINF_def MAXF_def)

lemma fl_round_zero: "fl_round 0 = Fin 0"
  using MINF_pos by (simp add: fl_round_def)

lemma fl_round_overflow: "MINF < \<bar>r\<bar> \<Longrightarrow> fl_round r = overflow r"
  by (simp add: fl_round_def)

lemma fl_round_small: "1 / 1000 \<le> \<bar>r\<bar> \<Longrightarrow> \<bar>r\<bar> \<le> 1000 \<Longrightarrow> fl_round r = Fin r"
proof -
  assume a: "1 / 1000 \<le> \<bar>r\<bar>" and b: "\<bar>r\<bar> \<le> 1000"
  have "MINF < \<bar>r\<bar>" using MINF_le a by linarith
  then show ?thesis using b by (simp only: fl_round_overflow overflow_small)
qed

lemmas fl_eval = overflow_small fl_round_zero fl_round_small

lemma fl_round_nonneg: "0 \<le> r \<Longrightarrow> fl_nonneg (fl_round r)"
  using MAXF_pos by (simp add: fl_round_def overflow_def)

lemma fl_round_cases: "fl_round r = Fin 0 \<or> fl_round r = overflow r"
  by (simp add: fl_round_def)

lemma ln2_bounds: "ln (2::real) \<le> 1" "1 / 2 \<le> ln (2::real)"
proof -
  have "ln (2::real) \<le> 2 - 1" by (rule ln_le_minus_one) simp
  then show "ln (2::real) \<le> 1" by simp
  have "ln (1 / 2 :: real) \<le> 1 / 2 - 1" by (rule ln_le_minus_one) simp
  moreover have "ln (1 / 2 :: real) = - ln 2" by (simp add: ln_div)
  ultimately show "1 / 2 \<le> ln (2::real)" by simp
qed

lemma inv_ln2_small: "\<bar>1 / ln (2::real)\<bar> \<le> 1000"
proof -
  have "0 < ln (2::real)" by simp
  moreover have "1 / ln (2::real) \<le> 1 / (1 / 2)"
    using ln2_bounds(2) by (intro divide_left_mono) simp_all
  ultimately show ?thesis by simp
qed

lemma mult_ln2_small: "\<bar>k\<bar> \<le> 100 \<Longrightarrow> \<bar>k * ln (2::real)\<bar> \<le> 1000"
proof -
  assume k: "\<bar>k\<bar> \<le> 100"
  have "\<bar>k * ln (2::real)\<bar> = \<bar>k\<bar> * ln 2" by (simp add: abs_mult)
  also have "\<dots> \<le> 100 * 1" using k ln2_bounds(1) by (intro mult_mono) simp_all
  finally show ?thesis by simp
qed

lemma overflow_ln2: "\<bar>k\<bar> \<le> 100 \<Longrightarrow> overflow (k * ln (2::real)) = Fin (k * ln 2)"
  by (rule overflow_small[OF mult_ln2_small])

lemma overflow_ln2_1: "overflow (ln (2::real)) = Fin (ln 2)" "overflow (- ln (2::real)) = Fin (- ln 2)"
  using overflow_ln2[of 1] overflow_ln2[of "- 1"] by simp_all

lemma overflow_inv_ln2: "fl_round (1 / ln (2::real)) = Fin (1 / ln 2)"
  "fl_round (- (1 / ln (2::real))) = Fin (- (1 / ln 2))"
proof -
  have "1 \<le> 1 / ln (2::real)" using ln2_bounds(1) by simp
  then have "1 / 1000 \<le> \<bar>1 / ln (2::real)\<bar>" by linarith
  then show "fl_round (1 / ln (2::real)) = Fin (1 / ln 2)"
    "fl_round (- (1 / ln (2::real))) = Fin (- (1 / ln 2))"
    using inv_ln2_small by (simp_all add: fl_round_small)
qed

lemma fl_add_NaN_right: "fl_add a NaN = NaN"
  by (cases a) simp_all

lemma foldl_fl_add_NaN_acc: "foldl fl_add NaN xs = NaN"
  by (induction xs) simp_all

lemma fl_sum_NaN: "NaN \<in> set xs \<Longrightarrow> fl_sum xs = NaN"
proof -
  have "NaN \<in> set xs \<Longrightarrow> foldl fl_add acc xs = NaN" for acc
    by (induction xs arbitrary: acc) (auto simp: fl_add_NaN_right foldl_fl_add_NaN_acc)
  then show "NaN \<in> set xs \<Longrightarrow> fl_sum xs = NaN" by (simp add: fl_sum_def)
qed

lemma fl_pos_nonneg: "fl_pos a \<Longrightarrow> fl_nonneg a"
  by (cases a) simp_all

lemma fl_pos_not_nan: "fl_pos a \<Longrightarrow> a \<noteq> NaN"
  by (cases a) simp_all

lemma fl_add_nonneg_pos: "fl_nonneg a \<Longrightarrow> fl_pos b \<Longrightarrow> fl_pos (fl_add a b)"
  by (cases a; cases b) (simp_all add: overflow_pos)

lemma foldl_fl_add_pos:
  "fl_nonneg acc \<Longrightarrow> \<forall>x\<in>set xs. fl_pos x \<Longrightarrow> fl_nonneg (foldl fl_add acc xs)"
  by (induction xs arbitrary: acc) (simp_all add: fl_add_nonneg_pos fl_pos_nonneg)

lemma foldl_fl_add_pos_strict:
  "fl_nonneg acc \<Longrightarrow> \<forall>x\<in>set xs. fl_pos x \<Longrightarrow> xs \<noteq> [] \<Longrightarrow> fl_pos (foldl fl_add acc xs)"
proof (induction xs arbitrary: acc rule: rev_induct)
  case Nil
  then show ?case by simp
next
  case (snoc x xs)
  have "fl_nonneg (foldl fl_add acc xs)"
    using snoc.prems by (intro foldl_fl_add_pos) simp_all
  then show ?case using snoc.prems by (simp add: fl_add_nonneg_pos)
qed

lemma fl_add_PInf_left: "fl_pos b \<Longrightarrow> fl_add PInf b = PInf"
  by (cases b) simp_all

lemma fl_add_PInf_right: "fl_nonneg a \<Longrightarrow> fl_add a PInf = PInf"
  by (cases a) simp_all

lemma foldl_fl_add_PInf_acc:
  "\<forall>x\<in>set xs. fl_pos x \<Longrightarrow> foldl fl_add PInf xs = PInf"
  by (induction xs) (simp_all add: fl_add_PInf_left)

lemma foldl_fl_add_PInf:
  "fl_nonneg acc \<Longrightarrow> \<forall>x\<in>set xs. fl_pos x \<Longrightarrow> PInf \<in> set xs \<Longrightarrow> foldl fl_add acc xs = PInf"
proof (induction xs arbitrary: acc)
  case Nil
  then show ?case by simp
next
  case (Cons x xs)
  show ?case
  proof (cases "x = PInf")
    case True
    then show ?thesis
      using Cons.prems by (simp add: fl_add_PInf_right foldl_fl_add_PInf_acc)
  next
    case False
    then have "PInf \<in> set xs" using Cons.prems by simp
    moreover have "fl_nonneg (fl_add acc x)"
      using Cons.prems by (simp add: fl_add_nonneg_pos fl_pos_nonneg)
    ultimately show ?thesis using Cons by simp
  qed
qed

lemma fl_gt_Fin: "fl_gt x (Fin u) \<Longrightarrow> x = PInf \<or> (\<exists>r. x = Fin r \<and> u < r)"
  by (cases x) (simp_all add: fl_gt_def fl_lt_def)

lemma fl_log_overflow_pos: "1 < r \<Longrightarrow> fl_pos (fl_log (fl_round r))"
proof -
  assume r: "1 < r"
  then have "MINF < \<bar>r\<bar>" using MINF_le by linarith
  then have "fl_round r = overflow r" by (rule fl_round_overflow)
  then show ?thesis using r MAXF_pos by (simp add: overflow_def)
qed

section \<open>The Hill tail index: proofs\<close>

lemma quantile_Inr_numeric: "quantile series q = Inr u \<Longrightarrow> list_all is_Num series"
  by (auto simp: quantile_def split: fl.splits if_splits)

lemma hill_tail_index_unfold:
  assumes "quantile series q = Inr u"
  shows "hill_tail_index series q =
     Inr (if length (exceedances series u) < 10 then NaN
          else fl_div (Fin 1) (series_mean (map (\<lambda>x. fl_log (fl_div x u)) (exceedances series u))))"
  using assms quantile_Inr_numeric[OF assms]
  by (simp add: hill_tail_index_def hill_body_def try_except_def series_gt_select_def
      exceedances_def Let_def)

lemma hill_tail_index_returns:
  "hill_tail_index series q = Inr (case hill_body series q of Inl e \<Rightarrow> NaN | Inr v \<Rightarrow> v)"
  by (simp add: hill_tail_index_def try_except_def split: sum.splits)

lemma series_mean_no_nan:
  "NaN \<notin> set xs \<Longrightarrow> xs \<noteq> [] \<Longrightarrow> series_mean xs = mean_spec xs"
proof -
  assume a: "NaN \<notin> set xs" and b: "xs \<noteq> []"
  have "filter (\<lambda>x. \<not> isna x) xs = xs"
    using a by (induction xs) (auto simp: isna_def)
  then show ?thesis using b by (simp add: series_mean_def mean_spec_def dropna_values_def)
qed

lemma series_mean_pos:
  assumes "\<forall>x\<in>set xs. fl_pos x" "xs \<noteq> []"
  shows "fl_pos (series_mean xs)" "PInf \<in> set xs \<Longrightarrow> series_mean xs = PInf"
proof -
  have nn: "NaN \<notin> set xs" using assms(1) fl_pos_not_nan by blast
  have m: "series_mean xs = fl_div_count (fl_sum xs) (length xs)"
    using series_mean_no_nan[OF nn assms(2)] by (simp add: mean_spec_def)
  have len: "0 < real (length xs)" using assms(2) by simp
  have s: "fl_pos (fl_sum xs)"
    unfolding fl_sum_def using assms by (intro foldl_fl_add_pos_strict) simp_all
  show "fl_pos (series_mean xs)"
    using s len unfolding m by (cases "fl_sum xs") (simp_all add: overflow_pos fl_div_count_def)
  show "series_mean xs = PInf" if "PInf \<in> set xs"
  proof -
    have "fl_sum xs = PInf"
      unfolding fl_sum_def using assms that by (intro foldl_fl_add_PInf) simp_all
    then show ?thesis using len unfolding m by (simp add: fl_div_count_def)
  qed
qed

lemma series_mean_Fin_range: "series_mean xs = Fin m \<Longrightarrow> \<bar>m\<bar> \<le> MAXF"
proof -
  assume a: "series_mean xs = Fin m"
  then have "fl_div_count (fl_sum (dropna_values xs)) (length (dropna_values xs)) = Fin m"
    by (simp add: series_mean_def Let_def split: if_splits)
  then obtain s where "overflow (s / real (length (dropna_values xs))) = Fin m"
    by (cases "fl_sum (dropna_values xs)") (simp_all add: fl_div_count_def)
  then show ?thesis using overflow_Fin by fastforce
qed

lemma pos_finiteD: "pos_finite c \<Longrightarrow> \<exists>r. c = Num (Fin r) \<and> 0 < r \<and> r \<le> MAXF"
  by (cases c rule: pos_finite.cases) simp_all

lemma fl_mul_fraction:
  assumes "\<bar>d\<bar> \<le> MAXF" "0 \<le> t" "t \<le> 1"
  shows "fl_mul (Fin d) (Fin t) = Fin (d * t) \<or> fl_mul (Fin d) (Fin t) = Fin 0"
proof -
  have "\<bar>d * t\<bar> \<le> \<bar>d\<bar> * 1"
    unfolding abs_mult using assms by (intro mult_left_mono) simp_all
  then have "\<bar>d * t\<bar> \<le> MAXF" using assms by simp
  then have "overflow (d * t) = Fin (d * t)" by (intro overflow_in_range) linarith+
  then show ?thesis using fl_round_cases[of "d * t"] by auto
qed

lemma lerp_pos:
  assumes "0 < a" "a \<le> MAXF" "0 < b" "b \<le> MAXF" "0 \<le> g" "g < 1"
  shows "\<exists>u. lerp (Fin a) (Fin b) g = Fin u \<and> 0 < u"
proof -
  have d: "fl_sub (Fin b) (Fin a) = Fin (b - a)"
    using assms by (simp add: fl_sub_def overflow_in_range)
  have dr: "\<bar>b - a\<bar> \<le> MAXF" using assms by simp
  have conv: "a + (b - a) * g = a * (1 - g) + b * g"
    "b - (b - a) * (1 - g) = a * (1 - g) + b * g"
    by (simp_all add: algebra_simps)
  have "0 < a * (1 - g)" using assms by simp
  moreover have "0 \<le> b * g" using assms by simp
  ultimately have pos: "0 < a * (1 - g) + b * g" by linarith
  have "a * (1 - g) \<le> MAXF * (1 - g)" using assms by (intro mult_right_mono) simp_all
  moreover have "b * g \<le> MAXF * g" using assms by (intro mult_right_mono) simp_all
  ultimately have "a * (1 - g) + b * g \<le> MAXF * (1 - g) + MAXF * g" by linarith
  then have le: "a * (1 - g) + b * g \<le> MAXF" by (simp add: algebra_simps)
  show ?thesis
  proof (cases "1 / 2 \<le> g")
    case True
    from fl_mul_fraction[OF dr, of "1 - g"] assms
    have "fl_mul (Fin (b - a)) (Fin (1 - g)) = Fin ((b - a) * (1 - g)) \<or>
        fl_mul (Fin (b - a)) (Fin (1 - g)) = Fin 0" by simp
    then show ?thesis
    proof
      assume m: "fl_mul (Fin (b - a)) (Fin (1 - g)) = Fin ((b - a) * (1 - g))"
      have "lerp (Fin a) (Fin b) g = overflow (b - (b - a) * (1 - g))"
        using True unfolding lerp_def d m by (simp add: fl_sub_def)
      also have "\<dots> = Fin (a * (1 - g) + b * g)"
        unfolding conv using pos le MAXF_pos by (intro overflow_in_range) linarith+
      finally show ?thesis using pos by blast
    next
      assume m: "fl_mul (Fin (b - a)) (Fin (1 - g)) = Fin 0"
      have "lerp (Fin a) (Fin b) g = overflow b"
        using True unfolding lerp_def d m by (simp add: fl_sub_def)
      also have "\<dots> = Fin b" using assms by (intro overflow_in_range) linarith+
      finally show ?thesis using assms by blast
    qed
  next
    case False
    from fl_mul_fraction[OF dr, of g] assms
    have "fl_mul (Fin (b - a)) (Fin g) = Fin ((b - a) * g) \<or>
        fl_mul (Fin (b - a)) (Fin g) = Fin 0" by simp
    then show ?thesis
    proof
      assume m: "fl_mul (Fin (b - a)) (Fin g) = Fin ((b - a) * g)"
      have "lerp (Fin a) (Fin b) g = overflow (a + (b - a) * g)"
        using False unfolding lerp_def d m by simp
      also have "\<dots> = Fin (a * (1 - g) + b * g)"
        unfolding conv using pos le MAXF_pos by (intro overflow_in_range) linarith+
      finally show ?thesis using pos by blast
    next
      assume m: "fl_mul (Fin (b - a)) (Fin g) = Fin 0"
      have "lerp (Fin a) (Fin b) g = overflow a"
        using False unfolding lerp_def d m by simp
      also have "\<dots> = Fin a" using assms by (intro overflow_in_range) linarith+
      finally show ?thesis using assms by blast
    qed
  qed
qed

lemma quantile_pos:
  assumes all: "\<forall>c\<in>set series. pos_finite c" and ne: "series \<noteq> []"
    and q: "0 \<le> qr" "qr \<le> 1"
  shows "\<exists>u. quantile series (Fin qr) = Inr (Fin u) \<and> 0 < u"
proof -
  define vals where "vals = sort_key fl_key (dropna_values (map num_of series))"
  define n where "n = length vals"
  define h where "h = real (n - 1) * qr"
  define lo where "lo = nat \<lfloor>h\<rfloor>"
  define hi where "hi = min (lo + 1) (n - 1)"
  have num: "list_all is_Num series"
    using all by (auto simp: list_all_iff dest!: pos_finiteD)
  have nonan: "dropna_values (map num_of series) = map num_of series"
    unfolding dropna_values_def using all
    by (intro filter_True) (auto simp: isna_def dest!: pos_finiteD)
  have setv: "set vals = num_of ` set series" by (simp add: vals_def nonan)
  have n: "n = length series" by (simp add: n_def vals_def nonan)
  then have npos: "0 < n" using ne by simp
  have h0: "0 \<le> h" using q by (simp add: h_def)
  have hle: "h \<le> real (n - 1)"
    unfolding h_def using q by (simp add: mult_left_le)
  have "\<lfloor>h\<rfloor> \<le> int (n - 1)" using hle by (simp add: floor_le_iff)
  then have lo: "lo \<le> n - 1" unfolding lo_def by simp
  have hi: "hi \<le> n - 1" by (simp add: hi_def)
  have g0: "0 \<le> h - real lo" using h0 by (simp add: lo_def)
  have g1: "h - real lo < 1" using h0 unfolding lo_def by simp linarith
  have mem: "\<And>i. i \<le> n - 1 \<Longrightarrow> \<exists>r. vals ! i = Fin r \<and> 0 < r \<and> r \<le> MAXF"
  proof -
    fix i assume "i \<le> n - 1"
    then have "i < length vals" using npos unfolding n_def by linarith
    then have "vals ! i \<in> num_of ` set series" using setv nth_mem by blast
    then obtain c where "c \<in> set series" "vals ! i = num_of c" by blast
    then show "\<exists>r. vals ! i = Fin r \<and> 0 < r \<and> r \<le> MAXF"
      using all by (auto dest!: pos_finiteD)
  qed
  obtain a where a: "vals ! lo = Fin a" "0 < a" "a \<le> MAXF" using mem[OF lo] by blast
  obtain b where b: "vals ! hi = Fin b" "0 < b" "b \<le> MAXF" using mem[OF hi] by blast
  obtain u where u: "lerp (Fin a) (Fin b) (h - real lo) = Fin u" "0 < u"
    using lerp_pos[OF a(2,3) b(2,3) g0 g1] by blast
  have "quantile series (Fin qr) = Inr (lerp (vals ! lo) (vals ! hi) (h - real lo))"
    using q num npos unfolding quantile_def Let_def hi_def lo_def h_def n_def vals_def
    by simp
  then show ?thesis using a b u by simp
qed

lemma log_ratio_pos:
  assumes "0 < ur" "fl_gt x (Fin ur)"
  shows "fl_pos (fl_log (fl_div x (Fin ur)))"
proof -
  from fl_gt_Fin[OF assms(2)] show ?thesis
  proof
    assume "x = PInf"
    then show ?thesis using assms(1) by (simp add: fl_inf_def)
  next
    assume "\<exists>r. x = Fin r \<and> ur < r"
    then obtain r where r: "x = Fin r" "ur < r" by blast
    then have "1 < r / ur" using assms(1) by simp
    then have "fl_pos (fl_log (fl_round (r / ur)))" by (rule fl_log_overflow_pos)
    then show ?thesis using r assms(1) by simp
  qed
qed

lemma log_exceedances_pos:
  assumes "0 < ur"
  shows "\<forall>y\<in>set (log_exceedances (exceedances series (Fin ur)) (Fin ur)). fl_pos y"
  using log_ratio_pos[OF assms] by (auto simp: log_exceedances_def exceedances_def)

lemmas eval_quantile = quantile_def dropna_values_def isna_def lerp_def fl_sub_def
lemmas eval_tail = exceedances_def fl_gt_def fl_lt_def
lemmas eval_mean = log_exceedances_def series_mean_def mean_spec_def dropna_values_def isna_def
  fl_sum_def fl_inf_def fl_div_count_def

lemma quantile_s9: "quantile s9 (Fin (1/16)) = Inr (Fin 1)"
  by (simp add: s9_def eval_quantile fl_eval)

lemma quantile_s10: "quantile s10 (Fin (1/16)) = Inr (Fin 1)"
  by (simp add: s10_def eval_quantile fl_eval)

lemma quantile_s_neg: "quantile s_neg (Fin (1/16)) = Inr (Fin (- 2))"
  by (simp add: s_neg_def eval_quantile fl_eval)

lemma q_over: "quantile s_over (Fin (1/16)) = Inr (Fin (1 / 2 ^ 1000))"
  by (simp add: s_over_def quantile_def dropna_values_def isna_def lerp_def fl_sub_def
      fl_round_zero overflow_def MAXF_def)

lemma exceedances_s9: "exceedances s9 (Fin 1) = replicate 9 (Fin 2)"
  by (simp add: s9_def eval_tail eval_nat_numeral)

lemma exceedances_s10: "exceedances s10 (Fin 1) = replicate 10 (Fin 2)"
  by (simp add: s10_def eval_tail eval_nat_numeral)

lemma mean_s10: "series_mean (log_exceedances (replicate 10 (Fin 2)) (Fin 1)) = Fin (ln 2)"
  by (simp add: eval_mean eval_nat_numeral fl_eval overflow_ln2 overflow_ln2_1)

text \<open>
  Claim C1, as amended.  Let \<open>u\<close> be the threshold \<open>quantile(X, q)\<close> and \<open>T\<close> the values of
  \<open>X\<close> above it.  Whenever \<open>T\<close> has at least ten elements, \<open>hill_tail_index\<close> returns
  \<open>1 / m\<close>, where \<open>m\<close> is the mean of those log-ratios \<open>ln (x / u)\<close>, \<open>x\<close> in \<open>T\<close>, that are
  not NaN, because \<open>Series.mean\<close> skips NaN.  When no log-ratio is NaN, and in particular
  when \<open>u\<close> is positive, this is exactly the specification's
  \<open>1 / mean (ln (x / u) for x in T)\<close>.
\<close>

theorem hill_formula:
  assumes "quantile series q = Inr u" "10 \<le> length (exceedances series u)"
  shows "hill_tail_index series q =
           Inr (fl_div (Fin 1) (series_mean (log_exceedances (exceedances series u) u))) \<and>
         (list_all (\<lambda>y. y \<noteq> NaN) (log_exceedances (exceedances series u) u) \<longrightarrow>
            hill_tail_index series q = Inr (hill_spec (exceedances series u) u)) \<and>
         ((\<exists>ur. u = Fin ur \<and> 0 < ur) \<longrightarrow>
            hill_tail_index series q = Inr (hill_spec (exceedances series u) u))"
proof -
  let ?L = "log_exceedances (exceedances series u) u"
  have h: "hill_tail_index series q = Inr (fl_div (Fin 1) (series_mean ?L))"
    using hill_tail_index_unfold[OF assms(1)] assms(2) by (simp add: log_exceedances_def)
  have ne: "?L \<noteq> []" using assms(2) by (auto simp: log_exceedances_def)
  have s: "hill_tail_index series q = Inr (hill_spec (exceedances series u) u)"
    if "NaN \<notin> set ?L"
    using h series_mean_no_nan[OF that ne] by (simp add: hill_spec_def log_exceedances_def)
  have a: "list_all (\<lambda>y. y \<noteq> NaN) ?L \<longrightarrow>
      hill_tail_index series q = Inr (hill_spec (exceedances series u) u)"
    using s by (auto simp: list_all_iff)
  have b: "hill_tail_index series q = Inr (hill_spec (exceedances series u) u)"
    if ex: "\<exists>ur. u = Fin ur \<and> 0 < ur"
  proof -
    obtain ur where ur: "u = Fin ur" "0 < ur" using ex by blast
    have "\<forall>y\<in>set ?L. fl_pos y" unfolding ur(1) by (rule log_exceedances_pos[OF ur(2)])
    then have "NaN \<notin> set ?L" using fl_pos_not_nan by blast
    then show ?thesis by (rule s)
  qed
  show ?thesis using h a b by blast
qed

text \<open>The amended claim C1 on a series with exactly ten values above the threshold 1.\<close>

theorem hill_formula_witness:
  "quantile s10 (Fin (1/16)) = Inr (Fin 1) \<and> length (exceedances s10 (Fin 1)) = 10 \<and>
   hill_tail_index s10 (Fin (1/16)) = Inr (hill_spec (exceedances s10 (Fin 1)) (Fin 1)) \<and>
   hill_spec (exceedances s10 (Fin 1)) (Fin 1) = Fin (1 / ln 2)"
proof -
  have len: "10 \<le> length (exceedances s10 (Fin 1))" by (simp add: exceedances_s10)
  have "hill_spec (exceedances s10 (Fin 1)) (Fin 1) = Fin (1 / ln 2)"
    unfolding exceedances_s10
    by (simp add: hill_spec_def eval_mean eval_nat_numeral fl_eval overflow_ln2 overflow_ln2_1 overflow_inv_ln2)
  then show ?thesis
    using hill_formula[OF quantile_s10 len] quantile_s10
    by (simp add: exceedances_s10 mean_s10 overflow_inv_ln2)
qed

text \<open>
  Claim C1 as stated fails on a series without missing values whose threshold is negative:
  five exceedances have a negative ratio \<open>x / u\<close>, their logarithms are NaN, the mean skips
  them, and the function returns \<open>- 1 / ln 2\<close> where the specification's formula is NaN.
\<close>

theorem hill_formula_counterexample:
  "list_all (\<lambda>c. is_Num c \<and> num_of c \<noteq> NaN) s_neg \<and>
   quantile s_neg (Fin (1/16)) = Inr (Fin (- 2)) \<and>
   length (exceedances s_neg (Fin (- 2))) = 10 \<and>
   hill_tail_index s_neg (Fin (1/16)) = Inr (Fin (- (1 / ln 2))) \<and>
   hill_spec (exceedances s_neg (Fin (- 2))) (Fin (- 2)) = NaN"
proof -
  have T: "exceedances s_neg (Fin (- 2)) =
      [Fin (- 1), Fin (- 1), Fin (- 1), Fin (- 1), Fin (- 1), Fin 1, Fin 1, Fin 1, Fin 1, Fin 1]"
    by (simp add: s_neg_def eval_tail)
  have l: "ln (1 / 2 :: real) = - ln 2" by (simp add: ln_div)
  have L: "log_exceedances (exceedances s_neg (Fin (- 2))) (Fin (- 2)) =
      [Fin (- ln 2), Fin (- ln 2), Fin (- ln 2), Fin (- ln 2), Fin (- ln 2), NaN, NaN, NaN, NaN, NaN]"
    unfolding T by (simp add: log_exceedances_def fl_eval l)
  have m: "series_mean (log_exceedances (exceedances s_neg (Fin (- 2))) (Fin (- 2))) = Fin (- ln 2)"
    unfolding L using overflow_ln2[of "- 2"] overflow_ln2[of "- 3"] overflow_ln2[of "- 4"] overflow_ln2[of "- 5"]
    by (simp add: series_mean_def dropna_values_def isna_def fl_sum_def fl_div_count_def
        overflow_ln2_1)
  have "hill_tail_index s_neg (Fin (1/16)) = Inr (Fin (- (1 / ln 2)))"
    unfolding hill_tail_index_unfold[OF quantile_s_neg] log_exceedances_def[symmetric] m
    by (simp add: T overflow_inv_ln2)
  moreover have "hill_spec (exceedances s_neg (Fin (- 2))) (Fin (- 2)) = NaN"
    unfolding hill_spec_def log_exceedances_def[symmetric] L
    by (simp add: mean_spec_def fl_sum_NaN fl_div_count_def)
  moreover have "list_all (\<lambda>c. is_Num c \<and> num_of c \<noteq> NaN) s_neg" by (simp add: s_neg_def)
  ultimately show ?thesis using quantile_s_neg T by simp
qed

text \<open>
  Claim C2.  When fewer than ten values exceed the quantile threshold, \<open>hill_tail_index\<close>
  returns NaN, and so it does when the threshold cannot be computed; when ten or more values
  exceed it, the estimator is computed and returned.  The boundary is between nine and ten.
\<close>

theorem hill_threshold:
  "(case quantile series q of
      Inl e \<Rightarrow> hill_tail_index series q = Inr NaN
    | Inr u \<Rightarrow>
        (length (exceedances series u) < 10 \<longrightarrow> hill_tail_index series q = Inr NaN) \<and>
        (10 \<le> length (exceedances series u) \<longrightarrow>
           hill_tail_index series q =
             Inr (fl_div (Fin 1) (series_mean (log_exceedances (exceedances series u) u)))))"
proof (cases "quantile series q")
  case (Inl e)
  then show ?thesis by (simp add: hill_tail_index_def hill_body_def try_except_def)
next
  case (Inr u)
  then show ?thesis
    using hill_tail_index_unfold[OF Inr] by (simp add: log_exceedances_def)
qed

text \<open>Nine exceedances give NaN, ten give the estimate \<open>1 / ln 2\<close>.\<close>

theorem hill_threshold_witness:
  "length (exceedances s9 (Fin 1)) = 9 \<and> hill_tail_index s9 (Fin (1/16)) = Inr NaN \<and>
   length (exceedances s10 (Fin 1)) = 10 \<and> hill_tail_index s10 (Fin (1/16)) = Inr (Fin (1 / ln 2))"
  using hill_threshold[of s9 "Fin (1/16)"] hill_threshold[of s10 "Fin (1/16)"]
  by (simp add: quantile_s9 quantile_s10 exceedances_s9 exceedances_s10 mean_s10 overflow_inv_ln2)

text \<open>With a strictly positive threshold every exceedance has a ratio above one, whatever
  the rest of the series holds.\<close>

lemma hill_positive_threshold:
  assumes u: "quantile series q = Inr (Fin ur)" and ur: "0 < ur"
    and len: "10 \<le> length (exceedances series (Fin ur))"
  shows "\<exists>v. hill_tail_index series q = Inr v \<and> fl_nonneg v"
    and "list_ex (\<lambda>x. fl_div x (Fin ur) = PInf) (exceedances series (Fin ur)) \<Longrightarrow>
           hill_tail_index series q = Inr (Fin 0)"
    and "series_mean (log_exceedances (exceedances series (Fin ur)) (Fin ur)) = Fin mr \<Longrightarrow>
         1 / mr \<le> MAXF \<Longrightarrow> hill_tail_index series q = Inr (Fin (1 / mr)) \<and> 0 < 1 / mr"
proof -
  let ?T = "exceedances series (Fin ur)"
  let ?L = "log_exceedances ?T (Fin ur)"
  have Lpos: "\<forall>y\<in>set ?L. fl_pos y" by (rule log_exceedances_pos[OF ur])
  have Lne: "?L \<noteq> []" using len by (auto simp: log_exceedances_def)
  have mpos: "fl_pos (series_mean ?L)" by (rule series_mean_pos(1)[OF Lpos Lne])
  have h: "hill_tail_index series q = Inr (fl_div (Fin 1) (series_mean ?L))"
    using hill_tail_index_unfold[OF u] len by (simp add: log_exceedances_def)
  show "\<exists>v. hill_tail_index series q = Inr v \<and> fl_nonneg v"
  proof (cases "series_mean ?L")
    case (Fin m)
    then have "0 \<le> 1 / m" using mpos by simp
    then have "fl_nonneg (fl_round (1 / m))" by (rule fl_round_nonneg)
    then show ?thesis using h Fin mpos by simp
  qed (use mpos h in simp_all)
  show "hill_tail_index series q = Inr (Fin 0)"
    if "list_ex (\<lambda>x. fl_div x (Fin ur) = PInf) ?T"
  proof -
    have "PInf \<in> set ?L"
      using that by (force simp: list_ex_iff log_exceedances_def)
    then have "series_mean ?L = PInf" by (rule series_mean_pos(2)[OF Lpos Lne])
    then show ?thesis using h by simp
  qed
  show "hill_tail_index series q = Inr (Fin (1 / mr)) \<and> 0 < 1 / mr"
    if m: "series_mean ?L = Fin mr" and r: "1 / mr \<le> MAXF"
  proof -
    have mr: "0 < mr" using m mpos by simp
    then have inv: "0 < 1 / mr" by simp
    have "mr \<le> MAXF" using series_mean_Fin_range[OF m] by simp
    then have "MINF * mr \<le> MINF * MAXF" using MINF_pos by (intro mult_left_mono) simp_all
    then have "MINF * mr < 1" using MINF_MAXF by linarith
    then have "MINF < 1 / mr" using mr by (simp add: pos_less_divide_eq)
    then have "fl_round (1 / mr) = overflow (1 / mr)"
      using inv by (intro fl_round_overflow) simp
    also have "\<dots> = Fin (1 / mr)"
      using r inv MAXF_pos by (intro overflow_in_range) linarith+
    finally show ?thesis using m h mr by simp
  qed
qed

text \<open>
  Claim C3, as amended.  On a series of strictly positive finite values with \<open>q\<close> in
  \<open>(0, 1)\<close> and at least ten exceedances, the threshold is strictly positive and the result
  is never NaN and never negative.  It is strictly positive and finite whenever the mean
  log-exceedance is finite and its reciprocal is within the \<open>float64\<close> range; when a ratio
  \<open>x / u\<close> overflows to infinity the result is \<open>0\<close>.
\<close>

theorem hill_positive_series:
  assumes pos: "list_all pos_finite series" and q: "0 < qr" "qr < 1"
    and u: "quantile series (Fin qr) = Inr u"
    and len: "10 \<le> length (exceedances series u)"
  shows "(\<exists>ur. u = Fin ur \<and> 0 < ur) \<and>
         (\<exists>v. hill_tail_index series (Fin qr) = Inr v \<and> fl_nonneg v) \<and>
         (list_ex (\<lambda>x. fl_div x u = PInf) (exceedances series u) \<longrightarrow>
            hill_tail_index series (Fin qr) = Inr (Fin 0)) \<and>
         (\<forall>mr. series_mean (log_exceedances (exceedances series u) u) = Fin mr \<and> 1 / mr \<le> MAXF \<longrightarrow>
            hill_tail_index series (Fin qr) = Inr (Fin (1 / mr)) \<and> 0 < 1 / mr)"
proof -
  have ne: "series \<noteq> []" using len by (auto simp: exceedances_def)
  obtain ur where ur: "u = Fin ur" "0 < ur"
    using quantile_pos[of series qr] pos q ne u by (auto simp: list_all_iff)
  note P = hill_positive_threshold[OF u[unfolded ur(1)] ur(2) len[unfolded ur(1)]]
  show ?thesis using ur P by blast
qed

text \<open>The amended claim C3 on a series of ones and twos.\<close>

theorem hill_positive_series_witness:
  "list_all pos_finite s10 \<and> quantile s10 (Fin (1/16)) = Inr (Fin 1) \<and>
   length (exceedances s10 (Fin 1)) = 10 \<and>
   hill_tail_index s10 (Fin (1/16)) = Inr (Fin (1 / ln 2)) \<and> 0 < 1 / ln (2::real)"
proof -
  have p: "list_all pos_finite s10" using MAXF_ge by (simp add: s10_def)
  have len: "10 \<le> length (exceedances s10 (Fin 1))" by (simp add: exceedances_s10)
  have inv: "1 / ln (2::real) \<le> MAXF" using inv_ln2_small MAXF_ge by linarith
  show ?thesis
    using hill_positive_series[OF p _ _ quantile_s10 len] p quantile_s10 inv
    by (simp add: exceedances_s10 mean_s10)
qed

text \<open>
  Claim C3 as stated fails where a ratio overflows: with two values \<open>2^-1000\<close> and ten
  values \<open>2^1000\<close> the threshold is \<open>2^-1000\<close>, every ratio is \<open>2^2000\<close>, which is beyond the
  largest \<open>float64\<close>, and the result is \<open>0\<close>, not a strictly positive number.
\<close>

theorem hill_overflow_counterexample:
  "list_all pos_finite s_over \<and>
   length (exceedances s_over (Fin (1 / 2 ^ 1000))) = 10 \<and>
   hill_tail_index s_over (Fin (1/16)) = Inr (Fin 0)"
proof -
  have "list_all pos_finite s_over" by (simp add: s_over_def MAXF_def)
  moreover have "length (exceedances s_over (Fin (1 / 2 ^ 1000))) = 10"
    by (simp add: s_over_def exceedances_def fl_gt_def fl_lt_def)
  moreover have "hill_tail_index s_over (Fin (1/16)) = Inr (Fin 0)"
    unfolding hill_tail_index_unfold[OF q_over]
    by (simp add: s_over_def exceedances_def fl_gt_def fl_lt_def series_mean_def
        dropna_values_def isna_def fl_sum_def fl_div_count_def fl_round_def MINF_def
        overflow_def MAXF_def fl_inf_def)
  ultimately show ?thesis by blast
qed

text \<open>The repository's own test of the insufficient-data case: five values at the default
  quantile have one exceedance.\<close>

lemma test_hill_with_insufficient_data:
  "hill_tail_index [Num (Fin 1), Num (Fin 2), Num (Fin 3), Num (Fin 4), Num (Fin 5)]
     (Fin (95 / 100)) = Inr NaN"
proof -
  have q: "quantile [Num (Fin 1), Num (Fin 2), Num (Fin 3), Num (Fin 4), Num (Fin 5)]
      (Fin (95 / 100)) = Inr (Fin (24 / 5))"
    by (simp add: eval_quantile fl_eval)
  show ?thesis
    unfolding hill_tail_index_unfold[OF q] by (simp add: eval_tail)
qed

text \<open>
  Claim C10.  \<open>hill_tail_index\<close> never raises: for every series and every
  \<open>threshold_quantile\<close> it returns a number, and that number is NaN whenever a step of the
  computation raises.
\<close>

theorem hill_never_raises:
  "hill_tail_index series q = Inr (case hill_body series q of Inl e \<Rightarrow> NaN | Inr v \<Rightarrow> v)"
  by (rule hill_tail_index_returns)

text \<open>An empty series, a series with a non-numeric cell, a quantile outside \<open>[0, 1]\<close>, a NaN
  quantile and a constant series: NaN every time, whether a step raised or not.\<close>

theorem hill_never_raises_witness:
  "hill_body [] (Fin (95/100)) = Inr NaN \<and> hill_tail_index [] (Fin (95/100)) = Inr NaN \<and>
   hill_body [Num (Fin 1), Obj ''n/a''] (Fin (95/100)) = Inl TypeError \<and>
   hill_tail_index [Num (Fin 1), Obj ''n/a''] (Fin (95/100)) = Inr NaN \<and>
   hill_body [Num (Fin 1), Num NaN] (Fin 2) =
     Inl (ValueError ''percentiles should all be in the interval [0, 1]'') \<and>
   hill_tail_index [Num (Fin 1), Num NaN] (Fin 2) = Inr NaN \<and>
   hill_body [Num (Fin 1)] NaN =
     Inl (ValueError ''percentiles should all be in the interval [0, 1]'') \<and>
   hill_tail_index [Num (Fin 1)] NaN = Inr NaN \<and>
   hill_tail_index [Num (Fin 3), Num (Fin 3), Num (Fin 3)] (Fin (95/100)) = Inr NaN"
  using hill_never_raises[of "[]" "Fin (95/100)"]
    hill_never_raises[of "[Num (Fin 1), Obj ''n/a'']" "Fin (95/100)"]
    hill_never_raises[of "[Num (Fin 1), Num NaN]" "Fin 2"]
    hill_never_raises[of "[Num (Fin 1)]" NaN]
    hill_never_raises[of "[Num (Fin 3), Num (Fin 3), Num (Fin 3)]" "Fin (95/100)"]
  by (simp add: hill_body_def eval_quantile series_gt_select_def fl_gt_def fl_lt_def fl_eval)

section \<open>Returns: proofs\<close>

lemma fl_div_NaN_right: "fl_div a NaN = NaN"
  by (cases a) simp_all

lemma fl_sub_NaN_right: "fl_sub a NaN = NaN"
  by (simp add: fl_sub_def fl_add_NaN_right)

lemma map2_replicate_NaN:
  "length vals = w \<Longrightarrow> (\<And>a. f a NaN = NaN) \<Longrightarrow> map2 f vals (replicate w NaN) = replicate w NaN"
  by (induction vals arbitrary: w) auto

lemma map_map2: "map f (map2 g xs ys) = map2 (\<lambda>x y. f (g x y)) xs ys"
  by (simp add: split_def)

lemma map2_shift_rows:
  "map2 (\<lambda>ra rb. (fst ra, map2 f (snd ra) (snd rb))) (r # rest) (shift_rows p (r # rest)) =
     (fst r, map2 f (snd r) p) #
       map2 (\<lambda>cur prev. (fst cur, map2 f (snd cur) (snd prev))) rest (r # rest)"
proof (induction rest arbitrary: r p)
  case Nil
  then show ?case by (cases r) simp
next
  case (Cons r' rest')
  show ?case using Cons[of r' "snd r"] by (cases r; cases r') simp
qed

lemma length_shift_rows: "length (shift_rows p rs) = length rs"
  by (induction p rs rule: shift_rows.induct) simp_all

lemma shift_rows_Cons: "shift_rows p (r # rest) = (fst r, p) # shift_rows (snd r) rest"
  by (cases r) simp

lemma rows_log_returns:
  assumes "str_lower rt = ''log''"
  shows "rows (compute_returns prices rt) =
     filter (\<lambda>r. \<not> list_ex isna (snd r))
       (map (\<lambda>r. (fst r, map fl_log (snd r)))
          (map2 (\<lambda>ra rb. (fst ra, map2 fl_div (snd ra) (snd rb))) (rows prices)
             (shift_rows (replicate (length (columns prices)) NaN) (rows prices))))"
  using assms
  by (simp add: compute_returns_def frame_dropna_def frame_map_def frame_map2_def shift1_def)

lemma rows_simple_returns:
  assumes "str_lower rt \<noteq> ''log''"
  shows "rows (compute_returns prices rt) =
     filter (\<lambda>r. \<not> list_ex isna (snd r))
       (map2 (\<lambda>ra rb. (fst ra, map2 fl_div (snd ra) (snd rb)))
          (map2 (\<lambda>ra rb. (fst ra, map2 fl_sub (snd ra) (snd rb))) (rows prices)
             (shift_rows (replicate (length (columns prices)) NaN) (rows prices)))
          (shift_rows (replicate (length (columns prices)) NaN) (rows prices)))"
  using assms
  by (simp add: compute_returns_def frame_dropna_def frame_map_def frame_map2_def shift1_def)


lemma list_ex_replicate_NaN: "0 < w \<Longrightarrow> list_ex isna (replicate w NaN)"
  by (cases w) (simp_all add: isna_def)

lemma log_returns_eq:
  assumes lg: "str_lower rt = ''log''" and wf: "wf_frame prices"
    and cols: "columns prices \<noteq> []"
  shows "rows (compute_returns prices rt) =
     filter (\<lambda>r. \<not> list_ex isna (snd r)) (spec_log_returns (rows prices))"
proof (cases "rows prices")
  case Nil
  then show ?thesis by (simp add: rows_log_returns[OF lg] spec_log_returns_def)
next
  case (Cons r rest)
  let ?w = "length (columns prices)"
  have w: "length (snd r) = ?w" using wf Cons by (simp add: wf_frame_def)
  have first: "map fl_log (map2 fl_div (snd r) (replicate ?w NaN)) = replicate ?w NaN"
    by (simp add: map2_replicate_NaN[OF w] fl_div_NaN_right)
  have drop: "list_ex isna (replicate ?w NaN)"
    using cols by (intro list_ex_replicate_NaN) simp
  show ?thesis
    unfolding rows_log_returns[OF lg] Cons map2_shift_rows spec_log_returns_def
    using first drop by (simp add: map_map2 del: map_map)
qed

lemma map2_map2_same: "map2 g (map2 f xs ys) ys = map2 (\<lambda>x y. g (f x y) y) xs ys"
  by (induction xs ys rule: list_induct2') simp_all

lemma map2_map2_shift_rows:
  "map2 (\<lambda>ra rb. (fst ra, map2 g (snd ra) (snd rb)))
     (map2 (\<lambda>ra rb. (fst ra, map2 f (snd ra) (snd rb))) (r # rest) (shift_rows p (r # rest)))
     (shift_rows p (r # rest)) =
   (fst r, map2 g (map2 f (snd r) p) p) #
     map2 (\<lambda>cur prev. (fst cur, map2 g (map2 f (snd cur) (snd prev)) (snd prev))) rest (r # rest)"
proof (induction rest arbitrary: r p)
  case Nil
  then show ?case by (cases r) simp
next
  case (Cons r' rest')
  show ?case using Cons[of r' "snd r"] by (cases r; cases r') simp
qed

lemma simple_returns_eq:
  assumes sm: "str_lower rt \<noteq> ''log''" and wf: "wf_frame prices"
    and cols: "columns prices \<noteq> []"
  shows "rows (compute_returns prices rt) =
     filter (\<lambda>r. \<not> list_ex isna (snd r)) (spec_simple_returns (rows prices))"
proof (cases "rows prices")
  case Nil
  then show ?thesis by (simp add: rows_simple_returns[OF sm] spec_simple_returns_def)
next
  case (Cons r rest)
  let ?w = "length (columns prices)"
  have w: "length (snd r) = ?w" using wf Cons by (simp add: wf_frame_def)
  have first: "map2 fl_div (map2 fl_sub (snd r) (replicate ?w NaN)) (replicate ?w NaN)
      = replicate ?w NaN"
    by (simp add: map2_replicate_NaN[OF w] fl_sub_NaN_right fl_div_NaN_right)
  have drop: "list_ex isna (replicate ?w NaN)"
    using cols by (intro list_ex_replicate_NaN) simp
  show ?thesis
    unfolding rows_simple_returns[OF sm] Cons map2_map2_shift_rows spec_simple_returns_def
    using first drop by (simp add: map2_map2_same)
qed















text \<open>
  Claim C5, as amended.  For every price panel and either return type, the return panel
  holds no missing value (NaN).  For a panel with at least one column its rows are the
  rows of returns for \<open>t\<close> after the first, without those in which some return is NaN:
  the first row and the rows with a NaN are dropped, and rows with infinite returns are
  kept.
\<close>

theorem compute_returns_no_missing:
  "list_all (\<lambda>r. \<not> list_ex isna (snd r)) (rows (compute_returns prices rt)) \<and>
   (wf_frame prices \<and> columns prices \<noteq> [] \<longrightarrow>
      rows (compute_returns prices rt) =
        filter (\<lambda>r. \<not> list_ex isna (snd r))
          (if str_lower rt = ''log'' then spec_log_returns (rows prices)
           else spec_simple_returns (rows prices)))"
proof -
  have "list_all (\<lambda>r. \<not> list_ex isna (snd r)) (rows (compute_returns prices rt))"
    by (simp add: compute_returns_def frame_dropna_def Let_def list_all_iff)
  then show ?thesis using log_returns_eq simple_returns_eq by auto
qed

text \<open>The amended claim C5 on a panel with a zero price, for both return types.\<close>

theorem compute_returns_no_missing_witness:
  "wf_frame prices_zero \<and> columns prices_zero \<noteq> [] \<and>
   list_all (\<lambda>r. \<not> list_ex isna (snd r)) (rows (compute_returns prices_zero ''log'')) \<and>
   rows (compute_returns prices_zero ''log'') = [(1, [NInf]), (2, [PInf])] \<and>
   rows (compute_returns prices_zero ''simple'') = [(1, [Fin (- 1)]), (2, [PInf])]"
proof -
  have wf: "wf_frame prices_zero" "columns prices_zero \<noteq> []"
    by (simp_all add: wf_frame_def prices_zero_def)
  have lg: "str_lower ''log'' = ''log''" "str_lower ''simple'' \<noteq> ''log''"
    by (simp_all add: str_lower_def char_lower_def)
  have l: "spec_log_returns (rows prices_zero) = [(1, [NInf]), (2, [PInf])]"
    by (simp add: spec_log_returns_def prices_zero_def fl_eval fl_inf_def)
  have s: "spec_simple_returns (rows prices_zero) = [(1, [Fin (- 1)]), (2, [PInf])]"
    by (simp add: spec_simple_returns_def prices_zero_def fl_sub_def fl_eval fl_inf_def)
  show ?thesis
    using compute_returns_no_missing[of prices_zero "''log''"]
      compute_returns_no_missing[of prices_zero "''simple''"] wf lg
    by (simp add: l s isna_def)
qed

text \<open>
  Claim C5 as stated fails on the prices 1, 0, 1: the log returns are \<open>ln (0 / 1)\<close> and
  \<open>ln (1 / 0)\<close>, minus and plus infinity, and \<open>dropna\<close> keeps both rows.
\<close>

theorem compute_returns_infinite_counterexample:
  "rows (compute_returns prices_zero ''log'') = [(1, [NInf]), (2, [PInf])]"
  by (simp add: compute_returns_def frame_dropna_def frame_map_def frame_map2_def shift1_def
      prices_zero_def str_lower_def char_lower_def isna_def fl_eval fl_inf_def)

section \<open>Diagnostics tables: proofs\<close>

lemma adf_test_eq: "adf_test adfuller series alpha = Inr (spec_adf_cells (adfuller series) alpha)"
  by (cases "adfuller series")
    (auto simp: adf_test_def spec_adf_cells_def try_except_def split: list.splits)

lemma kpss_test_eq: "kpss_test kpss series alpha = Inr (spec_kpss_cells (kpss series) alpha)"
  by (cases "kpss series")
    (auto simp: kpss_test_def spec_kpss_cells_def try_except_def split: list.splits)

lemma stationarity_body_eq:
  "stationarity_body adfuller kpss alpha item = Inr (spec_stationarity_row adfuller kpss alpha item)"
  by (simp add: stationarity_body_def spec_stationarity_row_def adf_test_eq kpss_test_eq Let_def
      split_def)

lemma stationarity_loop_eq:
  "stationarity_loop adfuller kpss alpha items results =
     Inr (results @ map (spec_stationarity_row adfuller kpss alpha) items)"
  by (induction items arbitrary: results) (simp_all add: stationarity_body_eq)

lemma stationarity_tests_eq:
  "stationarity_tests adfuller kpss data alpha =
     Inr (map (spec_stationarity_row adfuller kpss alpha) (frame_items data))"
  by (simp add: stationarity_tests_def stationarity_loop_eq)

lemma lb_test_eq:
  "lb_test acorr_ljungbox config series =
     Inr (spec_lb_cells (case tests config ''lb_lags'' of
                           None \<Rightarrow> Inl KeyError | Some lags \<Rightarrow> acorr_ljungbox series lags))"
  by (auto simp: lb_test_def spec_lb_cells_def try_except_def split: option.splits sum.splits list.splits)

lemma arch_test_eq:
  "arch_test het_arch config series =
     Inr (spec_arch_cells (case tests config ''arch_lm_lags'' of
                             None \<Rightarrow> Inl KeyError | Some nlags \<Rightarrow> het_arch series nlags))"
  by (auto simp: arch_test_def spec_arch_cells_def try_except_def split: option.splits sum.splits list.splits)

lemma stylized_body_eq:
  assumes "tails config ''hill_threshold_quantile'' = Some q"
  shows "stylized_body acorr_ljungbox het_arch kurtosis config item =
     Inr (spec_stylized_row acorr_ljungbox het_arch kurtosis config q item)"
  using assms
  by (simp add: stylized_body_def spec_stylized_row_def lb_test_eq arch_test_eq
      hill_tail_index_returns Let_def)

lemma stylized_loop_eq:
  assumes "tails config ''hill_threshold_quantile'' = Some q"
  shows "stylized_loop acorr_ljungbox het_arch kurtosis config items results =
     Inr (results @ map (spec_stylized_row acorr_ljungbox het_arch kurtosis config q) items)"
  by (induction items arbitrary: results) (simp_all add: stylized_body_eq[OF assms])

lemma stylized_facts_eq:
  assumes "tails config ''hill_threshold_quantile'' = Some q"
  shows "stylized_facts acorr_ljungbox het_arch kurtosis data config =
     Inr (map (spec_stylized_row acorr_ljungbox het_arch kurtosis config q) (frame_items data))"
  by (simp add: stylized_facts_def stylized_loop_eq[OF assms])

lemma map_fst_frame_items: "map fst (frame_items df) = columns df"
proof -
  have "map fst (frame_items df) = map (\<lambda>j. columns df ! j) [0..<length (columns df)]"
    by (simp add: frame_items_def comp_def)
  then show ?thesis by (simp only: map_nth)
qed

lemma frame_items_demo:
  "frame_items demo_returns =
     [(''FLAT'', [Fin 0, Fin 0, Fin 0]), (''B'', [Fin 1, Fin (- 1), Fin 2])]"
  by (simp add: frame_items_def demo_returns_def get_col_def upt_rec[of 0] upt_rec[of 1])

lemmas eval_demo = demo_adfuller_def demo_kpss_def demo_acorr_ljungbox_def demo_het_arch_def
  demo_kurtosis_def is_constant_def dropna_values_def isna_def

text \<open>
  Claim C6.  The stationarity table has one row per series.  Its ADF verdict is
  \<open>Stationary\<close> when the ADF p-value is below \<open>alpha\<close> and \<open>Non-stationary\<close> otherwise; its
  KPSS verdict is \<open>Stationary\<close> when the KPSS p-value is above \<open>alpha\<close> and \<open>Non-stationary\<close>
  otherwise; a test that fails leaves NaN, NaN and \<open>Error\<close> in its three fields.
\<close>

theorem stationarity_verdicts:
  "\<exists>table. stationarity_tests adfuller kpss data alpha = Inr table \<and>
     list_all2 (\<lambda>row item.
         stationarity_row.Series row = fst item \<and>
         (ADF_Statistic row, ADF_p_value row, ADF_Result row) =
           (case adfuller (dropna_values (snd item)) of
              Inr (stat # pval # _ # _) \<Rightarrow>
                (stat, pval, if fl_lt pval alpha then ''Stationary'' else ''Non-stationary'')
            | _ \<Rightarrow> (NaN, NaN, ''Error'')) \<and>
         (KPSS_Statistic row, KPSS_p_value row, KPSS_Result row) =
           (case kpss (dropna_values (snd item)) of
              Inr (stat # pval # _ # _) \<Rightarrow>
                (stat, pval, if fl_gt pval alpha then ''Stationary'' else ''Non-stationary'')
            | _ \<Rightarrow> (NaN, NaN, ''Error'')))
       table (frame_items data)"
proof -
  let ?table = "map (spec_stationarity_row adfuller kpss alpha) (frame_items data)"
  have "stationarity_tests adfuller kpss data alpha = Inr ?table"
    by (rule stationarity_tests_eq)
  moreover have "list_all2 (\<lambda>row item.
         stationarity_row.Series row = fst item \<and>
         (ADF_Statistic row, ADF_p_value row, ADF_Result row) =
           (case adfuller (dropna_values (snd item)) of
              Inr (stat # pval # _ # _) \<Rightarrow>
                (stat, pval, if fl_lt pval alpha then ''Stationary'' else ''Non-stationary'')
            | _ \<Rightarrow> (NaN, NaN, ''Error'')) \<and>
         (KPSS_Statistic row, KPSS_p_value row, KPSS_Result row) =
           (case kpss (dropna_values (snd item)) of
              Inr (stat # pval # _ # _) \<Rightarrow>
                (stat, pval, if fl_gt pval alpha then ''Stationary'' else ''Non-stationary'')
            | _ \<Rightarrow> (NaN, NaN, ''Error'')))
       ?table (frame_items data)"
    by (simp add: list_all2_map1 list_all2_same spec_stationarity_row_def spec_adf_cells_def
        spec_kpss_cells_def Let_def)
  ultimately show ?thesis by blast
qed

text \<open>A constant series, on which both routines fail, next to a series on which they
  succeed.\<close>

theorem stationarity_verdicts_witness:
  "stationarity_tests demo_adfuller demo_kpss demo_returns (Fin (5 / 100)) =
     Inr [\<lparr>stationarity_row.Series = ''FLAT'', ADF_Statistic = NaN, ADF_p_value = NaN, ADF_Result = ''Error'',
           KPSS_Statistic = NaN, KPSS_p_value = NaN, KPSS_Result = ''Error''\<rparr>,
          \<lparr>stationarity_row.Series = ''B'', ADF_Statistic = Fin (- 4), ADF_p_value = Fin (1 / 100),
           ADF_Result = ''Stationary'', KPSS_Statistic = Fin (1 / 20),
           KPSS_p_value = Fin (1 / 10), KPSS_Result = ''Stationary''\<rparr>]"
proof -
  obtain table where t: "stationarity_tests demo_adfuller demo_kpss demo_returns (Fin (5 / 100)) = Inr table"
    and rel: "list_all2 (\<lambda>row item.
         stationarity_row.Series row = fst item \<and>
         (ADF_Statistic row, ADF_p_value row, ADF_Result row) =
           (case demo_adfuller (dropna_values (snd item)) of
              Inr (stat # pval # _ # _) \<Rightarrow>
                (stat, pval, if fl_lt pval (Fin (5 / 100)) then ''Stationary'' else ''Non-stationary'')
            | _ \<Rightarrow> (NaN, NaN, ''Error'')) \<and>
         (KPSS_Statistic row, KPSS_p_value row, KPSS_Result row) =
           (case demo_kpss (dropna_values (snd item)) of
              Inr (stat # pval # _ # _) \<Rightarrow>
                (stat, pval, if fl_gt pval (Fin (5 / 100)) then ''Stationary'' else ''Non-stationary'')
            | _ \<Rightarrow> (NaN, NaN, ''Error'')))
       table (frame_items demo_returns)"
    using stationarity_verdicts[of demo_adfuller demo_kpss demo_returns "Fin (5 / 100)"] by blast
  from rel have "table =
     [\<lparr>stationarity_row.Series = ''FLAT'', ADF_Statistic = NaN, ADF_p_value = NaN, ADF_Result = ''Error'',
           KPSS_Statistic = NaN, KPSS_p_value = NaN, KPSS_Result = ''Error''\<rparr>,
          \<lparr>stationarity_row.Series = ''B'', ADF_Statistic = Fin (- 4), ADF_p_value = Fin (1 / 100),
           ADF_Result = ''Stationary'', KPSS_Statistic = Fin (1 / 20),
           KPSS_p_value = Fin (1 / 10), KPSS_Result = ''Stationary''\<rparr>]"
    unfolding frame_items_demo
    by (auto simp: list_all2_Cons2 eval_demo fl_lt_def fl_gt_def)
  then show ?thesis using t by simp
qed

text \<open>
  Claim C7.  With the Hill quantile configured, \<open>stationarity_tests\<close> and \<open>stylized_facts\<close>
  always return, with exactly one row per series in the order of the columns.  Every group
  of fields is determined by the outcome of its own test on its own series: a test that
  fails leaves NaN or \<open>Error\<close> in its fields and changes nothing else.
\<close>

theorem local_failures_do_not_abort:
  assumes "tails config ''hill_threshold_quantile'' = Some q"
  shows "stationarity_tests adfuller kpss data alpha =
           Inr (map (spec_stationarity_row adfuller kpss alpha) (frame_items data)) \<and>
         stylized_facts acorr_ljungbox het_arch kurtosis data config =
           Inr (map (spec_stylized_row acorr_ljungbox het_arch kurtosis config q) (frame_items data)) \<and>
         map fst (frame_items data) = columns data"
  using stationarity_tests_eq stylized_facts_eq[OF assms] map_fst_frame_items by blast

text \<open>A run on two series whose first is constant: its row holds NaN and \<open>Error\<close>, the
  other row is complete, and both tables are returned.\<close>

theorem local_failures_do_not_abort_witness:
  "tails demo_config ''hill_threshold_quantile'' = Some (Fin (95 / 100)) \<and>
   stationarity_tests demo_adfuller demo_kpss demo_returns (Fin (5 / 100)) =
     Inr [\<lparr>stationarity_row.Series = ''FLAT'', ADF_Statistic = NaN, ADF_p_value = NaN, ADF_Result = ''Error'',
           KPSS_Statistic = NaN, KPSS_p_value = NaN, KPSS_Result = ''Error''\<rparr>,
          \<lparr>stationarity_row.Series = ''B'', ADF_Statistic = Fin (- 4), ADF_p_value = Fin (1 / 100),
           ADF_Result = ''Stationary'', KPSS_Statistic = Fin (1 / 20),
           KPSS_p_value = Fin (1 / 10), KPSS_Result = ''Stationary''\<rparr>] \<and>
   stylized_facts demo_acorr_ljungbox demo_het_arch demo_kurtosis demo_returns demo_config =
     Inr [\<lparr>Series = ''FLAT'', Ljung_Box_Stat = NaN, Ljung_Box_p_value = NaN,
           ARCH_LM_Stat = NaN, ARCH_LM_p_value = NaN, Hill_Tail_Index = NaN,
           Excess_Kurtosis = NaN\<rparr>,
          \<lparr>Series = ''B'', Ljung_Box_Stat = Fin 2, Ljung_Box_p_value = Fin (1 / 4),
           ARCH_LM_Stat = Fin 3, ARCH_LM_p_value = Fin (1 / 5), Hill_Tail_Index = NaN,
           Excess_Kurtosis = NaN\<rparr>]"
proof -
  have k: "tails demo_config ''hill_threshold_quantile'' = Some (Fin (95 / 100))"
    by (simp add: demo_config_def)
  have h1: "hill_body [Num (Fin 0), Num (Fin 0), Num (Fin 0)] (Fin (95 / 100)) = Inr NaN"
    by (simp add: hill_body_def eval_quantile series_gt_select_def fl_gt_def fl_lt_def fl_eval)
  have q2: "quantile [Num (Fin 1), Num (Fin (- 1)), Num (Fin 2)] (Fin (95 / 100)) = Inr (Fin (19 / 10))"
    by (simp add: eval_quantile fl_eval)
  have h2: "hill_body [Num (Fin 1), Num (Fin (- 1)), Num (Fin 2)] (Fin (95 / 100)) = Inr NaN"
    using q2 by (simp add: hill_body_def series_gt_select_def fl_gt_def fl_lt_def)
  show ?thesis
    using local_failures_do_not_abort[OF k, of demo_adfuller demo_kpss demo_returns "Fin (5 / 100)"
        demo_acorr_ljungbox demo_het_arch demo_kurtosis] h1 h2
    unfolding frame_items_demo
    by (simp add: k spec_stationarity_row_def spec_adf_cells_def spec_kpss_cells_def
        spec_stylized_row_def spec_lb_cells_def spec_arch_cells_def eval_demo fl_lt_def fl_gt_def
        demo_config_def)
qed

section \<open>Loading: proofs\<close>

lemmas eval_spec_index = spec_resolve_index_def set_datetime_index_def
  set_index_def col_values_def get_col_def drop_nth_def date_like_columns_def
  str_lower_def char_lower_def to_datetime_ok_def to_datetime_fail_def

lemma handle_raw_dated_undated:
  "handle_date_column config_undated to_datetime_ok raw_dated = Inr (raw_dated, [])"
  by (simp add: handle_date_column_def config_undated_def demo_config_def)

lemma spec_raw_dated_undated:
  "spec_resolve_index config_undated to_datetime_ok raw_dated =
     Inr (\<lparr>index_name = Some ''Date'', columns = [''A''],
           rows = [(Obj ''2024-01-01'', [Num (Fin 1)]), (Obj ''2024-01-02'', [Num (Fin 2)])]\<rparr>, [])"
  by (simp add: eval_spec_index config_undated_def demo_config_def raw_dated_def)

text \<open>
  Claim C9, as amended.  When \<open>date_column\<close> is set and present, or \<open>parse_dates\<close> is set,
  the index is resolved in the specified order: the declared column, else the first column
  with a date-like name, else an attempt on the first column, which keeps the ordinal index
  with a warning when it fails.  When neither holds, the ordinal index is kept as it is:
  no column name is examined and no warning is printed.
\<close>

theorem index_precedence:
  "((date_column config \<noteq> [] \<and> date_column config \<in> set (columns df)) \<or> parse_dates config \<longrightarrow>
      handle_date_column config to_datetime df = spec_resolve_index config to_datetime df) \<and>
   (\<not> (date_column config \<noteq> [] \<and> date_column config \<in> set (columns df)) \<and> \<not> parse_dates config \<longrightarrow>
      handle_date_column config to_datetime df = Inr (df, []))"
  by (simp add: handle_date_column_def spec_resolve_index_def Let_def)

lemmas eval_index = handle_date_column_def eval_spec_index

text \<open>The five ways through the resolution, each on a concrete table.\<close>

theorem index_precedence_witness:
  "handle_date_column demo_config to_datetime_ok raw_dated =
     Inr (\<lparr>index_name = Some ''Date'', columns = [''A''],
           rows = [(Obj ''2024-01-01'', [Num (Fin 1)]), (Obj ''2024-01-02'', [Num (Fin 2)])]\<rparr>, []) \<and>
   handle_date_column (demo_config\<lparr>date_column := []\<rparr>) to_datetime_ok raw_dated =
     Inr (\<lparr>index_name = Some ''Date'', columns = [''A''],
           rows = [(Obj ''2024-01-01'', [Num (Fin 1)]), (Obj ''2024-01-02'', [Num (Fin 2)])]\<rparr>, []) \<and>
   handle_date_column demo_config to_datetime_ok raw_plain =
     Inr (\<lparr>index_name = Some ''day'', columns = [''A''],
           rows = [(Obj ''first'', [Num (Fin 1)]), (Obj ''second'', [Num (Fin 2)])]\<rparr>, []) \<and>
   handle_date_column demo_config to_datetime_fail raw_plain = Inr (raw_plain, [CouldNotParseDates]) \<and>
   handle_date_column config_undated to_datetime_ok raw_dated = Inr (raw_dated, [])"
  using index_precedence[of demo_config raw_dated to_datetime_ok]
    index_precedence[of "demo_config\<lparr>date_column := []\<rparr>" raw_dated to_datetime_ok]
    index_precedence[of demo_config raw_plain to_datetime_ok]
    index_precedence[of demo_config raw_plain to_datetime_fail]
    index_precedence[of config_undated raw_dated to_datetime_ok]
  by (simp add: eval_spec_index demo_config_def config_undated_def raw_dated_def raw_plain_def)

text \<open>
  Claim C9 as stated fails when \<open>parse_dates\<close> is not set and no date column is declared:
  a column named \<open>Date\<close> is not made the index, and nothing is printed.
\<close>

theorem index_precedence_counterexample:
  "date_column config_undated = [] \<and> \<not> parse_dates config_undated \<and>
   date_like_columns raw_dated = [''Date''] \<and>
   handle_date_column config_undated to_datetime_ok raw_dated = Inr (raw_dated, []) \<and>
   index_name raw_dated = None \<and>
   spec_resolve_index config_undated to_datetime_ok raw_dated =
     Inr (\<lparr>index_name = Some ''Date'', columns = [''A''],
           rows = [(Obj ''2024-01-01'', [Num (Fin 1)]), (Obj ''2024-01-02'', [Num (Fin 2)])]\<rparr>, [])"
  using handle_raw_dated_undated spec_raw_dated_undated
  by (simp add: config_undated_def demo_config_def raw_dated_def date_like_columns_def
      str_lower_def char_lower_def)

lemmas eval_load = load_data_def identify_price_columns_def select_columns_def frame_empty_def
  frame_dropna_def resample_same_def isna_def

text \<open>The checks that \<open>load_data\<close> does make: no price column, and no row left after
  \<open>dropna\<close>, each raise \<open>ValueError\<close>.\<close>

lemma load_data_terminal_errors:
  assumes "files (input_csv config) = Some (Inr df0)"
    and "handle_date_column config to_datetime df0 = Inr (df1, out1)"
  shows "identify_price_columns config df1 = [] \<Longrightarrow>
           load_data config files to_datetime resample_last =
             Inl (ValueError ''No price columns found!'')"
    and "identify_price_columns config df1 \<noteq> [] \<Longrightarrow>
         select_columns df1 (identify_price_columns config df1) = Inr df2 \<Longrightarrow>
         \<not> frame_empty df2 \<Longrightarrow> dropna config \<Longrightarrow> frame_empty (frame_dropna cell_isna df2) \<Longrightarrow>
           load_data config files to_datetime resample_last =
             Inl (ValueError ''No data remaining after dropping NA values'')"
  using assms by (simp_all add: load_data_def Let_def)

text \<open>
  Claim C8 at a panel that becomes empty by resampling.  The column \<open>A\<close> holds only missing
  values, \<open>dropna\<close> is off and the data are resampled: \<open>load_data\<close> returns the empty panel
  and does not raise.  With \<open>dropna\<close> on, the same data raise \<open>ValueError\<close>.
\<close>

theorem load_data_resample_empty:
  "load_data config_resample [''data/prices.csv'' \<mapsto> Inr raw_missing] to_datetime_ok resample_same =
     Inr (\<lparr>index_name = Some ''Date'', columns = [''A''], rows = []\<rparr>,
          [LoadingData ''data/prices.csv'', FoundPriceColumns [''A''], Resampled ''D'' 0 1]) \<and>
   load_data (config_resample\<lparr>dropna := True\<rparr>) [''data/prices.csv'' \<mapsto> Inr raw_missing]
       to_datetime_ok resample_same =
     Inl (ValueError ''No data remaining after dropping NA values'')"
  by (simp add: eval_load eval_index config_resample_def demo_config_def raw_missing_def Let_def)


end
